theory Spec2Isabelle
  imports Complex_Main "HOL-Library.Word" "HOL-Library.Log_Nat" "HOL-Library.List_Lexorder"
    "HOL-Library.Signed_Division"
begin

unbundle bit_operations_syntax

section \<open>Bytes, memory and errors\<close>

text \<open>
  A \<^verbatim>\<open>uint8_t\<close> is an \<open>8 word\<close>, a \<^verbatim>\<open>uint64_t\<close> or \<^verbatim>\<open>int64_t\<close> value is a \<open>64 word\<close>
  (read with \<open>unat\<close> or \<open>sint\<close>). The builder's buffer \<^verbatim>\<open>_start\<close> is a store from
  addresses to bytes. Positions and sizes (\<^verbatim>\<open>JasonLength\<close>, \<^verbatim>\<open>size_t\<close>) are natural
  numbers: they index the buffer, and every subtraction the builder makes on them is
  between a position and an earlier one. Allocation (\<^verbatim>\<open>reserveSpace\<close>, the class
  \<^verbatim>\<open>JasonBuffer\<close>) only makes room and is not part of the embedding: the store is
  unbounded.
\<close>

type_synonym byte = "8 word"
type_synonym memory = "nat \<Rightarrow> byte"

text \<open>Both exception classes of the sources carry a message only.\<close>

datatype error =
    JasonBuilderError string
  | JasonDumperError string
  | OutOfBoundsIndex
  | TypeMismatch

definition bytes_of :: "string \<Rightarrow> byte list" where
  "bytes_of cs = map (\<lambda>c. of_nat (of_char c)) cs"

text \<open>\<^verbatim>\<open>memcpy(dst, src, n)\<close> with the source given as the list of its bytes.\<close>

fun memcpy :: "memory \<Rightarrow> nat \<Rightarrow> byte list \<Rightarrow> memory" where
  "memcpy m dst [] = m"
| "memcpy m dst (b # bs) = memcpy (m(dst := b)) (dst + 1) bs"

text \<open>\<^verbatim>\<open>memmove(dst, src, n)\<close> inside one store: the regions may overlap.\<close>

definition memmove :: "memory \<Rightarrow> nat \<Rightarrow> nat \<Rightarrow> nat \<Rightarrow> memory" where
  "memmove m dst src n = (\<lambda>a. if dst \<le> a \<and> a < dst + n then m (src + (a - dst)) else m a)"

text \<open>
  \<^verbatim>\<open>memcmp(p, q, n)\<close>: the sign of the first difference of two regions, bytes compared
  as unsigned.
\<close>

fun memcmp :: "memory \<Rightarrow> nat \<Rightarrow> nat \<Rightarrow> nat \<Rightarrow> int" where
  "memcmp m p q 0 = 0"
| "memcmp m p q (Suc n) =
     (if m p < m q then - 1 else if m q < m p then 1 else memcmp m (p + 1) (q + 1) n)"

text \<open>The bytes of a region, for stating results.\<close>

definition region :: "memory \<Rightarrow> nat \<Rightarrow> nat \<Rightarrow> byte list" where
  "region m a n = map m [a..<a + n]"

section \<open>Slices\<close>

text \<open>
  Modelled from the spec: the class \<^verbatim>\<open>JasonSlice\<close> (not among the sources). A
  \<^verbatim>\<open>JasonSlice\<close> is a pointer into a buffer. The dumper and the uniqueness check of the
  builder read it through its accessors only, and \<open>Slice\<close> is what the accessors decode: \<^verbatim>\<open>type()\<close> is the constructor,
  an array gives its elements in index-table order (\<^verbatim>\<open>length()\<close>, \<^verbatim>\<open>at(i)\<close>), an object
  its pairs in index-table order (\<^verbatim>\<open>keyAt(i)\<close>, \<^verbatim>\<open>valueAt(i)\<close>), a string its bytes
  (\<^verbatim>\<open>getString\<close>), an integer its 64-bit value, an external the slice it points to.
\<close>

datatype Slice =
    NoneSlice
  | NullSlice
  | BoolSlice bool
  | DoubleSlice "64 word"
  | ArraySlice "Slice list"
  | ObjectSlice "(Slice \<times> Slice) list"
  | ExternalSlice Slice
  | IDSlice
  | ArangoDB_idSlice
  | UTCDateSlice
  | IntSlice "64 word"
  | UIntSlice "64 word"
  | SmallIntSlice "64 word"
  | StringSlice "byte list"
  | BinarySlice
  | BCDSlice

datatype JasonSlice = JasonSlice memory nat

section \<open>The builder\<close>

text \<open>
  Modelled from the spec: \<^verbatim>\<open>JasonOptions\<close> (its declaration is not among the sources),
  with the two options \<^verbatim>\<open>close()\<close> reads.
\<close>

record JasonOptions =
  sortAttributeNames :: bool
  checkAttributeUniqueness_opt :: bool

datatype JasonType =
    None_t | Null | Bool | Double | Array | Object | External | ID | ArangoDB_id
  | UTCDate | Int_t | UInt | SmallInt | String | Binary | BCD

text \<open>
  Modelled from the spec: the class \<^verbatim>\<open>Jason\<close> (not among the sources), a value handed to
  the builder: its C type with the payload (\<^verbatim>\<open>cType()\<close> and the getters) and the type it
  is to be stored as (\<^verbatim>\<open>jasonType()\<close>). Floating point and raw pointers are outside the
  embedding, so there is no payload for \<^verbatim>\<open>CType::Double\<close> and \<^verbatim>\<open>CType::VoidPtr\<close>.
\<close>

datatype CValue =
    CNone
  | CBool bool
  | CInt64 "64 word"
  | CUInt64 "64 word"
  | CString "byte list"
  | CCharPtr "byte list"

datatype Jason = Jason CValue JasonType

fun jasonType :: "Jason \<Rightarrow> JasonType" where
  "jasonType (Jason v t) = t"

fun isString :: "Jason \<Rightarrow> bool" where
  "isString (Jason v t) = (t = String)"

text \<open>
  The fields of \<^verbatim>\<open>JasonBuilder\<close>: \<^verbatim>\<open>_start\<close>, \<^verbatim>\<open>_pos\<close>, \<^verbatim>\<open>_attrWritten\<close>, \<^verbatim>\<open>_stack\<close>,
  \<^verbatim>\<open>_index\<close> and \<^verbatim>\<open>options\<close>.
\<close>

record JasonBuilder =
  start :: memory
  pos :: nat
  attrWritten :: bool
  stack :: "nat list"
  index :: "nat list list"
  options :: JasonOptions

text \<open>The builder a default constructor gives, over any initial buffer contents.\<close>

definition JasonBuilder_new :: "memory \<Rightarrow> JasonOptions \<Rightarrow> JasonBuilder" where
  "JasonBuilder_new m opts =
     \<lparr>start = m, pos = 0, attrWritten = False, stack = [], index = [], options = opts\<rparr>"

text \<open>The idiom \<^verbatim>\<open>_start[_pos++] = b\<close>.\<close>

definition put :: "byte \<Rightarrow> JasonBuilder \<Rightarrow> JasonBuilder" where
  "put b s = s\<lparr>start := (start s)(pos s := b), pos := pos s + 1\<rparr>"

subsection \<open>Integer widths\<close>

lemma unat_drop_bit8: "unat (drop_bit 8 (v :: 64 word)) = unat v div 256"
  by (simp add: drop_bit_eq_div unat_div)

lemma drop_bit8_less: "drop_bit 8 (v :: 64 word) \<noteq> 0 \<Longrightarrow> unat (drop_bit 8 v) < unat v"
proof -
  assume "drop_bit 8 v \<noteq> 0"
  then have "unat (drop_bit 8 v) \<noteq> 0"
    by (simp add: unat_eq_0)
  then show ?thesis
    by (simp add: unat_drop_bit8)
qed

text \<open>The \<^verbatim>\<open>do { vSize++; value >>= 8; } while (value != 0)\<close> loop of \<^verbatim>\<open>uintLength\<close>.\<close>

function uintLength_loop :: "64 word \<Rightarrow> nat \<Rightarrow> nat" where
  "uintLength_loop v vSize =
     (let vSize' = vSize + 1; v' = drop_bit 8 v
      in if v' \<noteq> 0 then uintLength_loop v' vSize' else vSize')"
  by pat_completeness auto
termination
  by (relation "measure (\<lambda>(v, vSize). unat v)") (simp_all add: drop_bit8_less)

declare uintLength_loop.simps [simp del]

definition uintLength :: "64 word \<Rightarrow> nat" where
  "uintLength v = (if v \<le> 0xff then 1 else uintLength_loop v 0)"

text \<open>
  The loop \<^verbatim>\<open>for (x = v; vSize > 0; vSize--) { _start[_pos++] = x & 0xff; x >>= 8; }\<close> of
  \<^verbatim>\<open>appendUInt\<close>.
\<close>

fun appendUInt_loop :: "64 word \<Rightarrow> nat \<Rightarrow> JasonBuilder \<Rightarrow> JasonBuilder" where
  "appendUInt_loop x 0 s = s"
| "appendUInt_loop x (Suc vSize) s = appendUInt_loop (drop_bit 8 x) vSize (put (ucast (x AND 0xff)) s)"

definition appendUInt :: "64 word \<Rightarrow> byte \<Rightarrow> JasonBuilder \<Rightarrow> JasonBuilder" where
  "appendUInt v base s =
     (let vSize = uintLength v
      in appendUInt_loop v vSize (put (base + of_nat vSize) s))"

fun appendLength :: "nat \<Rightarrow> nat \<Rightarrow> JasonBuilder \<Rightarrow> JasonBuilder" where
  "appendLength v 0 s = s"
| "appendLength v (Suc n) s = appendLength (v div 256) n (put (of_nat (v mod 256)) s)"

subsection \<open>Adding values\<close>

text \<open>\<^verbatim>\<open>reportAdd(base)\<close>: \<^verbatim>\<open>_index[_stack.size() - 1].push_back(_pos - base)\<close>.\<close>

definition reportAdd :: "nat \<Rightarrow> JasonBuilder \<Rightarrow> JasonBuilder" where
  "reportAdd base s =
     (let depth = length (stack s) - 1
      in s\<lparr>index := (index s)[depth := (index s ! depth) @ [pos s - base]]\<rparr>)"

definition addCompoundValue :: "byte \<Rightarrow> JasonBuilder \<Rightarrow> JasonBuilder" where
  "addCompoundValue type s =
     (let stack1 = stack s @ [pos s];
          index1 = index s @ replicate (length stack1 - length (index s)) [];
          index2 = index1[length stack1 - 1 := []];
          s1 = put 0x00 (put type (s\<lparr>stack := stack1, index := index2\<rparr>))
      in s1\<lparr>pos := pos s1 + 8\<rparr>)"

definition addArray :: "JasonBuilder \<Rightarrow> JasonBuilder" where
  "addArray s = addCompoundValue 0x05 s"

definition addObject :: "JasonBuilder \<Rightarrow> JasonBuilder" where
  "addObject s = addCompoundValue 0x07 s"

text \<open>
  \<^verbatim>\<open>set(Jason const& item)\<close>, one definition per case of its \<^verbatim>\<open>switch\<close> that reads the
  payload. In the case \<^verbatim>\<open>SmallInt\<close> the branch for \<^verbatim>\<open>CType::UInt64\<close> has no \<^verbatim>\<open>break\<close> and
  runs into the \<^verbatim>\<open>default\<close> branch, which throws.
\<close>

definition set_Bool :: "CValue \<Rightarrow> JasonBuilder \<Rightarrow> error + JasonBuilder" where
  "set_Bool v s =
     (case v of
        CBool b \<Rightarrow> Inr (put (if b then 0x03 else 0x02) s)
      | _ \<Rightarrow> Inl (JasonBuilderError ''Must give bool for JasonType::Bool.''))"

definition set_SmallInt :: "CValue \<Rightarrow> JasonBuilder \<Rightarrow> error + JasonBuilder" where
  "set_SmallInt v s =
     (case v of
        CInt64 vv \<Rightarrow>
          if sint vv < - 8 \<or> sint vv > 7
          then Inl (JasonBuilderError ''Number out of range of JasonType::SmallInt.'')
          else if sint vv \<ge> 0 then Inr (put (ucast (vv + 0x30)) s)
          else Inr (put (ucast (vv + 8 + 0x38)) s)
      | CUInt64 vv \<Rightarrow> Inl (JasonBuilderError ''Must give number for JasonType::SmallInt.'')
      | _ \<Rightarrow> Inl (JasonBuilderError ''Must give number for JasonType::SmallInt.''))"

definition set_Int :: "CValue \<Rightarrow> JasonBuilder \<Rightarrow> error + JasonBuilder" where
  "set_Int v s =
     (case v of
        CInt64 vv \<Rightarrow>
          if sint vv \<ge> 0 then Inr (appendUInt vv 0x17 s) else Inr (appendUInt (- vv) 0x1f s)
      | CUInt64 vv \<Rightarrow> Inr (appendUInt vv 0x17 s)
      | _ \<Rightarrow> Inl (JasonBuilderError ''Must give number for JasonType::Int.''))"

definition set_UInt :: "CValue \<Rightarrow> JasonBuilder \<Rightarrow> error + JasonBuilder" where
  "set_UInt v s =
     (case v of
        CInt64 vv \<Rightarrow>
          if sint vv < 0
          then Inl (JasonBuilderError ''Must give non-negative number for JasonType::UInt.'')
          else Inr (appendUInt vv 0x27 s)
      | CUInt64 vv \<Rightarrow> Inr (appendUInt vv 0x27 s)
      | _ \<Rightarrow> Inl (JasonBuilderError ''Must give number for JasonType::UInt.''))"

text \<open>
  A string of at most 127 bytes is written whole. For a longer one the tag, the length
  and the bytes are written, but \<^verbatim>\<open>_pos\<close> is not moved past the bytes.
\<close>

definition set_String_bytes :: "byte list \<Rightarrow> JasonBuilder \<Rightarrow> JasonBuilder" where
  "set_String_bytes bs s =
     (let size = length bs in
      if size \<le> 127 then
        (let s1 = put (0x40 + of_nat size) s
         in s1\<lparr>start := memcpy (start s1) (pos s1) bs, pos := pos s1 + size\<rparr>)
      else
        (let s1 = appendLength size 8 (put 0x0c s)
         in s1\<lparr>start := memcpy (start s1) (pos s1) bs\<rparr>))"

definition set_String :: "CValue \<Rightarrow> JasonBuilder \<Rightarrow> error + JasonBuilder" where
  "set_String v s =
     (case v of
        CString bs \<Rightarrow> Inr (set_String_bytes bs s)
      | CCharPtr bs \<Rightarrow> Inr (set_String_bytes bs s)
      | _ \<Rightarrow> Inl (JasonBuilderError ''Must give a string or char const* for JasonType::String.''))"

definition set_Binary_bytes :: "byte list \<Rightarrow> JasonBuilder \<Rightarrow> JasonBuilder" where
  "set_Binary_bytes bs s =
     (let v = length bs;
          s1 = appendUInt (of_nat v) 0xbf s
      in s1\<lparr>start := memcpy (start s1) (pos s1) bs, pos := pos s1 + v\<rparr>)"

definition set_Binary :: "CValue \<Rightarrow> JasonBuilder \<Rightarrow> error + JasonBuilder" where
  "set_Binary v s =
     (case v of
        CString bs \<Rightarrow> Inr (set_Binary_bytes bs s)
      | CCharPtr bs \<Rightarrow> Inr (set_Binary_bytes bs s)
      | _ \<Rightarrow> Inl (JasonBuilderError ''Must give a string or char const* for JasonType::Binary.''))"

text \<open>
  The cases \<^verbatim>\<open>Double\<close>, \<^verbatim>\<open>External\<close> and \<^verbatim>\<open>UTCDate\<close> store a floating-point number, a
  raw pointer and the result of a getter of the class \<^verbatim>\<open>Jason\<close>; they are outside the
  embedding and have no equation.
\<close>

fun set_Jason :: "Jason \<Rightarrow> JasonBuilder \<Rightarrow> error + JasonBuilder" where
  "set_Jason (Jason v None_t) s = Inl (JasonBuilderError ''Cannot set a JasonType::None.'')"
| "set_Jason (Jason v Null) s = Inr (put 0x01 s)"
| "set_Jason (Jason v Bool) s = set_Bool v s"
| "set_Jason (Jason v SmallInt) s = set_SmallInt v s"
| "set_Jason (Jason v Int_t) s = set_Int v s"
| "set_Jason (Jason v UInt) s = set_UInt v s"
| "set_Jason (Jason v String) s = set_String v s"
| "set_Jason (Jason v Array) s = Inr (addArray s)"
| "set_Jason (Jason v Object) s = Inr (addObject s)"
| "set_Jason (Jason v Binary) s = set_Binary v s"
| "set_Jason (Jason v ArangoDB_id) s = Inr (put 0x0b s)"
| "set_Jason (Jason v ID) s = Inl (JasonBuilderError ''Need a JasonPair to build a JasonType::ID.'')"
| "set_Jason (Jason v BCD) s = Inl (JasonBuilderError ''BCD not yet implemented.'')"

text \<open>\<^verbatim>\<open>add(Jason const& sub)\<close>.\<close>

definition add :: "Jason \<Rightarrow> JasonBuilder \<Rightarrow> error + JasonBuilder" where
  "add sub s =
     (if stack s \<noteq> [] then
        (let tos = last (stack s) in
         if start s tos < 0x05 \<or> start s tos > 0x08
         then Inl (JasonBuilderError ''Need open array or object for add() call.'')
         else if start s tos \<ge> 0x07 then
           (if \<not> attrWritten s \<and> \<not> isString sub
            then Inl (JasonBuilderError ''Need open object for this add() call.'')
            else
              (let s1 = (if \<not> attrWritten s then reportAdd tos s else s)
               in set_Jason sub (s1\<lparr>attrWritten := \<not> attrWritten s1\<rparr>)))
         else set_Jason sub (reportAdd tos s))
      else set_Jason sub s)"

text \<open>\<^verbatim>\<open>add(std::string const& attrName, Jason const& sub)\<close>.\<close>

definition add_attrName :: "byte list \<Rightarrow> Jason \<Rightarrow> JasonBuilder \<Rightarrow> error + JasonBuilder" where
  "add_attrName attrName sub s =
     (if attrWritten s then Inl (JasonBuilderError ''Attribute name already written.'')
      else
        (let r = (if stack s \<noteq> [] then
                    (let tos = last (stack s) in
                     if start s tos \<noteq> 0x07 \<and> start s tos \<noteq> 0x08
                     then Inl (JasonBuilderError ''Need open object for add() call.'')
                     else Inr (reportAdd tos s))
                  else Inr s)
         in case r of
              Inl e \<Rightarrow> Inl e
            | Inr s1 \<Rightarrow>
                (case set_Jason (Jason (CString attrName) String) s1 of
                   Inl e \<Rightarrow> Inl e
                 | Inr s2 \<Rightarrow> set_Jason sub s2)))"

subsection \<open>Sorting the index table of an object\<close>

text \<open>
  The loop \<^verbatim>\<open>for (i = 8; i >= 1; i--) len = (len << 8) + base[i]\<close> of \<^verbatim>\<open>findAttrName\<close>.
\<close>

fun findAttrName_len :: "memory \<Rightarrow> nat \<Rightarrow> nat \<Rightarrow> nat \<Rightarrow> nat" where
  "findAttrName_len m base 0 len = len"
| "findAttrName_len m base (Suc i) len =
     findAttrName_len m base i (len * 256 + unat (m (base + Suc i)))"

text \<open>\<^verbatim>\<open>findAttrName(base, len)\<close> gives the address of the first byte of the name and \<^verbatim>\<open>len\<close>.\<close>

definition findAttrName :: "memory \<Rightarrow> nat \<Rightarrow> error + nat \<times> nat" where
  "findAttrName m base =
     (let b = m base in
      if b \<ge> 0x40 \<and> b \<le> 0xbf then Inr (base + 1, unat b - 0x40)
      else if b = 0x0c then Inr (base + 1 + 8, findAttrName_len m base 8 0)
      else Inl (JasonBuilderError ''Unimplemented attribute name type.''))"

text \<open>
  \<^verbatim>\<open>std::sort(first, last, comp)\<close> is a template of the C++ standard library and not among
  the sources. The standard says that it leaves the range a permutation of itself in
  which no element is less, by \<^verbatim>\<open>comp\<close>, than an element before it, and leaves the order
  of equivalent elements open, so that it differs from one library to the next. The
  embedding therefore does not fix a sorting function: the two instances of the template
  that the builder calls, on the vector of offsets (\<^verbatim>\<open>JasonLength\<close>) and on the vector of
  \<^verbatim>\<open>SortEntryLarge\<close>, are parameters of every function that sorts, and a theorem assumes of
  them what it needs.
\<close>

record SortEntryLarge =
  nameStart :: nat
  nameSize :: nat
  offset :: nat

record std_sort =
  sort_JasonLength :: "(nat \<Rightarrow> nat \<Rightarrow> bool) \<Rightarrow> nat list \<Rightarrow> nat list"
  sort_SortEntryLarge ::
    "(SortEntryLarge \<Rightarrow> SortEntryLarge \<Rightarrow> bool) \<Rightarrow> SortEntryLarge list \<Rightarrow> SortEntryLarge list"

text \<open>
  One sorting function that meets the standard's description, by insertion from the
  left; the examples that run the builder on concrete values use it.
\<close>

fun insertion_sort_insert :: "('a \<Rightarrow> 'a \<Rightarrow> bool) \<Rightarrow> 'a \<Rightarrow> 'a list \<Rightarrow> 'a list" where
  "insertion_sort_insert lt x [] = [x]"
| "insertion_sort_insert lt x (y # ys) =
     (if lt x y then x # y # ys else y # insertion_sort_insert lt x ys)"

definition insertion_sort :: "('a \<Rightarrow> 'a \<Rightarrow> bool) \<Rightarrow> 'a list \<Rightarrow> 'a list" where
  "insertion_sort lt xs = foldl (\<lambda>ys x. insertion_sort_insert lt x ys) [] xs"

definition by_insertion :: std_sort where
  "by_insertion = \<lparr>sort_JasonLength = insertion_sort, sort_SortEntryLarge = insertion_sort\<rparr>"

text \<open>
  The comparison of \<^verbatim>\<open>sortObjectIndexShort\<close>. Where \<^verbatim>\<open>findAttrName\<close> throws the
  comparison has no value; \<^verbatim>\<open>sortObjectIndexShort\<close> below raises the error then.
\<close>

definition sortObjectIndexShort_cmp :: "memory \<Rightarrow> nat \<Rightarrow> nat \<Rightarrow> nat \<Rightarrow> bool" where
  "sortObjectIndexShort_cmp m objBase a b =
     (let aa = objBase + a; bb = objBase + b in
      if m aa \<ge> 0x40 \<and> m aa \<le> 0xbf \<and> m bb \<ge> 0x40 \<and> m bb \<le> 0xbf then
        (let n = min (unat (m aa) - 0x40) (unat (m bb) - 0x40);
             c = memcmp m (aa + 1) (bb + 1) n
         in c < 0 \<or> (c = 0 \<and> m aa < m bb))
      else
        (case (findAttrName m aa, findAttrName m bb) of
           (Inr (pa, lena), Inr (pb, lenb)) \<Rightarrow>
             (let n = min lena lenb;
                  c = memcmp m pa pb n
              in c < 0 \<or> (c = 0 \<and> lena < lenb))
         | _ \<Rightarrow> False))"

text \<open>
  \<^verbatim>\<open>sortObjectIndexShort(objBase, offsets)\<close>. The comparison throws as soon as one of its
  two keys has a tag that is not a string's, and a sort of two or more elements compares
  every element at least once, so the error is raised exactly when some offset points to
  such a tag.
\<close>

definition sortObjectIndexShort ::
  "std_sort \<Rightarrow> memory \<Rightarrow> nat \<Rightarrow> nat list \<Rightarrow> error + nat list" where
  "sortObjectIndexShort srt m objBase offsets =
     (if list_ex (\<lambda>a. isl (findAttrName m (objBase + a))) offsets
      then Inl (JasonBuilderError ''Unimplemented attribute name type.'')
      else Inr (sort_JasonLength srt (sortObjectIndexShort_cmp m objBase) offsets))"

definition doActualSortLarge_cmp :: "memory \<Rightarrow> SortEntryLarge \<Rightarrow> SortEntryLarge \<Rightarrow> bool" where
  "doActualSortLarge_cmp m a b =
     (let pa = nameStart a; sizea = nameSize a; pb = nameStart b; sizeb = nameSize b;
          compareLength = min sizea sizeb;
          res = memcmp m pa pb compareLength
      in res < 0 \<or> (res = 0 \<and> sizea < sizeb))"

definition doActualSortLarge ::
  "std_sort \<Rightarrow> memory \<Rightarrow> SortEntryLarge list \<Rightarrow> SortEntryLarge list" where
  "doActualSortLarge srt m entries = sort_SortEntryLarge srt (doActualSortLarge_cmp m) entries"

text \<open>
  \<^verbatim>\<open>sortObjectIndexLong(objBase, offsets)\<close>: the entries are built in order, the first
  offset whose key has no string tag throws.
\<close>

fun sortObjectIndexLong_entries :: "memory \<Rightarrow> nat \<Rightarrow> nat list \<Rightarrow> error + SortEntryLarge list" where
  "sortObjectIndexLong_entries m objBase [] = Inr []"
| "sortObjectIndexLong_entries m objBase (a # offsets) =
     (case findAttrName m (objBase + a) of
        Inl e \<Rightarrow> Inl e
      | Inr (p, len) \<Rightarrow>
          (case sortObjectIndexLong_entries m objBase offsets of
             Inl e \<Rightarrow> Inl e
           | Inr entries \<Rightarrow> Inr (\<lparr>nameStart = p, nameSize = len, offset = a\<rparr> # entries)))"

definition sortObjectIndexLong ::
  "std_sort \<Rightarrow> memory \<Rightarrow> nat \<Rightarrow> nat list \<Rightarrow> error + nat list" where
  "sortObjectIndexLong srt m objBase offsets =
     (case sortObjectIndexLong_entries m objBase offsets of
        Inl e \<Rightarrow> Inl e
      | Inr entries \<Rightarrow> Inr (map offset (doActualSortLarge srt m entries)))"

subsection \<open>Checking that attribute names are unique\<close>

text \<open>
  Modelled from the spec, for the accessors of \<^verbatim>\<open>JasonSlice\<close> used here: \<^verbatim>\<open>keyAt(i)\<close> fails
  with \<open>OutOfBoundsIndex\<close> for \<open>i \<ge> length()\<close>, \<^verbatim>\<open>getString\<close> and the accessors of an object
  fail with \<open>TypeMismatch\<close> on a slice of another type.
\<close>

text \<open>
  \<^verbatim>\<open>checkAttributeUniqueness(obj)\<close>: \<open>p\<close> is the name of the previous key; the loop starts at
  the second pair.
\<close>

definition isObject :: "Slice \<Rightarrow> bool" where
  "isObject sl = (case sl of ObjectSlice kvs \<Rightarrow> True | _ \<Rightarrow> False)"

function checkAttributeUniqueness :: "Slice \<Rightarrow> error + unit"
  and checkAttributeUniqueness_loop :: "byte list \<Rightarrow> (Slice \<times> Slice) list \<Rightarrow> error + unit"
  where
  "checkAttributeUniqueness obj =
     (case obj of
        ObjectSlice kvs \<Rightarrow>
          (case kvs of
             [] \<Rightarrow> Inl OutOfBoundsIndex
           | (previous, v) # rest \<Rightarrow>
               (case previous of
                  StringSlice p \<Rightarrow> checkAttributeUniqueness_loop p rest
                | _ \<Rightarrow> Inl TypeMismatch))
      | _ \<Rightarrow> Inl TypeMismatch)"
| "checkAttributeUniqueness_loop p [] = Inr ()"
| "checkAttributeUniqueness_loop p ((current, val) # kvs) =
     (case current of
        StringSlice q \<Rightarrow>
          if p = q then Inl (JasonBuilderError ''duplicate attribute name.'')
          else
            (case (if isObject val then checkAttributeUniqueness val else Inr ()) of
               Inl e \<Rightarrow> Inl e
             | Inr u \<Rightarrow> checkAttributeUniqueness_loop q kvs)
      | _ \<Rightarrow> Inr ())"
  by pat_completeness auto
termination
  by (relation "measure (\<lambda>x. case x of
        Inl sl \<Rightarrow> size sl
      | Inr (p, kvs) \<Rightarrow> size_list (size_prod size size) kvs)")
    simp_all

subsection \<open>Closing a compound value\<close>

text \<open>
  The loops \<^verbatim>\<open>for (j = 0; j < 8; j++) { _start[a + j] = x & 0xff; x >>= 8; }\<close> that store a
  length, a count or an offset in eight bytes.
\<close>

fun storeLength :: "memory \<Rightarrow> nat \<Rightarrow> nat \<Rightarrow> nat \<Rightarrow> memory" where
  "storeLength m a x 0 = m"
| "storeLength m a x (Suc j) = storeLength (m(a := of_nat (x mod 256))) (a + 1) (x div 256) j"

text \<open>
  The loop that writes the small table: \<^verbatim>\<open>uint16_t x = index[i]\<close>, low byte then high
  byte at \<^verbatim>\<open>tableBase + 2 * i\<close>.
\<close>

fun writeSmallTable :: "memory \<Rightarrow> nat \<Rightarrow> nat list \<Rightarrow> memory" where
  "writeSmallTable m a [] = m"
| "writeSmallTable m a (x # xs) =
     writeSmallTable
       (m(a := of_nat ((x mod 65536) mod 256), a + 1 := of_nat ((x mod 65536) div 256)))
       (a + 2) xs"

text \<open>The loop that writes the large table: eight bytes per offset.\<close>

fun writeLargeTable :: "memory \<Rightarrow> nat \<Rightarrow> nat list \<Rightarrow> memory" where
  "writeLargeTable m a [] = m"
| "writeLargeTable m a (x # xs) = writeLargeTable (storeLength m a x 8) (a + 8) xs"

text \<open>
  The first step of \<^verbatim>\<open>close()\<close>: the condition for a one-byte byte length, and what is
  done when it holds: the entries move down over the eight unused bytes, \<^verbatim>\<open>_pos\<close> and
  every recorded offset decrease by 8.
\<close>

definition close_smallByteLength :: "nat \<Rightarrow> JasonBuilder \<Rightarrow> bool" where
  "close_smallByteLength tos s =
     (let idx = index s ! (length (stack s) - 1)
      in length idx < 0x100 \<and> pos s - tos - 8 + 1 + 2 * length idx < 0x100)"

definition close_smallTable :: "nat \<Rightarrow> JasonBuilder \<Rightarrow> bool" where
  "close_smallTable tos s =
     (let idx = index s ! (length (stack s) - 1)
      in if close_smallByteLength tos s then True
         else length idx < 0x100 \<and> (length idx = 0 \<or> last idx < 0x10000))"

definition close_compact :: "nat \<Rightarrow> JasonBuilder \<Rightarrow> JasonBuilder" where
  "close_compact tos s =
     (let depth = length (stack s) - 1;
          idx = index s ! depth
      in s\<lparr>start := (if pos s > tos + 10
                      then memmove (start s) (tos + 2) (tos + 10) (pos s - (tos + 10))
                      else start s),
           pos := pos s - 8,
           index := (index s)[depth := map (\<lambda>x. x - 8) idx]\<rparr>)"

text \<open>The branch for the small table: two bytes per offset and one byte for the count.\<close>

definition close_writeSmallTable ::
  "std_sort \<Rightarrow> nat \<Rightarrow> JasonBuilder \<Rightarrow> error + JasonBuilder" where
  "close_writeSmallTable srt tos s =
     (let depth = length (stack s) - 1;
          idx = index s ! depth;
          tableBase = pos s;
          s1 = (if idx \<noteq> [] then s\<lparr>pos := pos s + (2 * length idx + 1)\<rparr> else s);
          s2 = (if start s1 tos AND 1 = 0
                then s1\<lparr>start := (start s1)(tos := start s1 tos - 1)\<rparr> else s1)
      in case (if start s2 tos = 0x07 \<and> length idx \<ge> 2 \<and> sortAttributeNames (options s2)
               then sortObjectIndexShort srt (start s2) tos idx else Inr idx) of
           Inl e \<Rightarrow> Inl e
         | Inr idx1 \<Rightarrow>
             Inr (s2\<lparr>start := (writeSmallTable (start s2) tableBase idx1)
                               (pos s2 - 1 := of_nat (length idx1)),
                     index := (index s2)[depth := idx1]\<rparr>))"

text \<open>The branch for the large table: the count in the last eight bytes, then the offsets.\<close>

definition close_writeLargeTable ::
  "std_sort \<Rightarrow> nat \<Rightarrow> JasonBuilder \<Rightarrow> error + JasonBuilder" where
  "close_writeLargeTable srt tos s =
     (let depth = length (stack s) - 1;
          idx = index s ! depth;
          tableBase = pos s;
          s1 = s\<lparr>pos := pos s + (8 * length idx + 8)\<rparr>;
          s2 = (if start s1 tos AND 1 = 1
                then s1\<lparr>start := (start s1)(tos := start s1 tos + 1)\<rparr> else s1)
      in case (if start s2 tos = 0x08 \<and> length idx \<ge> 2 \<and> sortAttributeNames (options s2)
               then sortObjectIndexLong srt (start s2) tos idx else Inr idx) of
           Inl e \<Rightarrow> Inl e
         | Inr idx1 \<Rightarrow>
             Inr (s2\<lparr>start := writeLargeTable
                               (storeLength (start s2) (pos s2 - 8) (length idx1) 8)
                               tableBase idx1,
                     index := (index s2)[depth := idx1]\<rparr>))"

text \<open>The byte length: one byte at \<^verbatim>\<open>tos + 1\<close>, or a zero there and eight bytes after it.\<close>

definition close_writeByteLength :: "bool \<Rightarrow> nat \<Rightarrow> JasonBuilder \<Rightarrow> JasonBuilder" where
  "close_writeByteLength smallByteLength tos s =
     (if smallByteLength then s\<lparr>start := (start s)(tos + 1 := of_nat (pos s - tos))\<rparr>
      else s\<lparr>start := storeLength ((start s)(tos + 1 := 0x00)) (tos + 2) (pos s - tos) 8\<rparr>)"

text \<open>
  \<^verbatim>\<open>close()\<close>. The sorting functions of the library are the parameter \<open>srt\<close>, and the
  decoding of the sealed bytes that \<^verbatim>\<open>JasonSlice\<close> gives to \<^verbatim>\<open>checkAttributeUniqueness\<close> is
  the parameter \<open>decode\<close>.
\<close>

definition close ::
  "std_sort \<Rightarrow> (JasonSlice \<Rightarrow> Slice) \<Rightarrow> JasonBuilder \<Rightarrow> error + JasonBuilder" where
  "close srt decode s =
     (if stack s = [] then Inl (JasonBuilderError ''Need open array or object for close() call.'')
      else
        (let tos = last (stack s) in
         if start s tos < 0x05 \<or> start s tos > 0x08
         then Inl (JasonBuilderError ''Need open array or object for close() call.'')
         else
           (let n = length (index s ! (length (stack s) - 1));
                smallByteLength = close_smallByteLength tos s;
                smallTable = close_smallTable tos s;
                s1 = (if smallByteLength then close_compact tos s else s)
            in case (if smallTable then close_writeSmallTable srt tos s1
                     else close_writeLargeTable srt tos s1) of
                 Inl e \<Rightarrow> Inl e
               | Inr s2 \<Rightarrow>
                   (let s3 = close_writeByteLength smallByteLength tos s2 in
                    case (if checkAttributeUniqueness_opt (options s3) \<and> n > 1 \<and>
                             start s3 tos \<ge> 0x07
                          then checkAttributeUniqueness (decode (JasonSlice (start s3) tos))
                          else Inr ()) of
                      Inl e \<Rightarrow> Inl e
                    | Inr u \<Rightarrow> Inr (s3\<lparr>stack := butlast (stack s3)\<rparr>)))))"

subsection \<open>Reading the result\<close>

text \<open>\<^verbatim>\<open>size()\<close> checks that no compound value is open; \<^verbatim>\<open>slice()\<close> makes no check.\<close>

definition size_builder :: "JasonBuilder \<Rightarrow> error + nat" where
  "size_builder s =
     (if stack s \<noteq> [] then Inl (JasonBuilderError ''Jason object not sealed.'')
      else Inr (pos s))"

definition slice_builder :: "JasonBuilder \<Rightarrow> error + JasonSlice" where
  "slice_builder s = Inr (JasonSlice (start s) 0)"

subsection \<open>Builders used as examples\<close>

definition JasonOptions_check :: JasonOptions where
  "JasonOptions_check = \<lparr>sortAttributeNames = False, checkAttributeUniqueness_opt = True\<rparr>"

definition xyx_builder :: "error + JasonBuilder" where
  "xyx_builder =
     (case add (Jason CNone Object) (JasonBuilder_new (\<lambda>a. 0) JasonOptions_check) of
        Inl e \<Rightarrow> Inl e
      | Inr s1 \<Rightarrow>
          (case add_attrName [0x78] (Jason (CInt64 1) SmallInt) s1 of
             Inl e \<Rightarrow> Inl e
           | Inr s2 \<Rightarrow>
               (case add_attrName [0x79] (Jason (CInt64 2) SmallInt) s2 of
                  Inl e \<Rightarrow> Inl e
                | Inr s3 \<Rightarrow> add_attrName [0x78] (Jason (CInt64 3) SmallInt) s3)))"

definition xyx_slice :: Slice where
  "xyx_slice = ObjectSlice
     [(StringSlice [0x78], SmallIntSlice 1),
      (StringSlice [0x79], SmallIntSlice 2),
      (StringSlice [0x78], SmallIntSlice 3)]"

definition two_strings_builder :: "error + JasonBuilder" where
  "two_strings_builder =
     (case add (Jason CNone Array) (JasonBuilder_new (\<lambda>a. 0) JasonOptions_check) of
        Inl e \<Rightarrow> Inl e
      | Inr s1 \<Rightarrow>
          (case add (Jason (CString (replicate 127 0x61)) String) s1 of
             Inl e \<Rightarrow> Inl e
           | Inr s2 \<Rightarrow> add (Jason (CString (replicate 120 0x62)) String) s2))"

text \<open>An object with sorted attribute names whose second key is longer than 127 bytes.\<close>

definition JasonOptions_sort :: JasonOptions where
  "JasonOptions_sort = \<lparr>sortAttributeNames = True, checkAttributeUniqueness_opt = False\<rparr>"

definition long_key_builder :: "error + JasonBuilder" where
  "long_key_builder =
     (case add (Jason CNone Object) (JasonBuilder_new (\<lambda>a. 0) JasonOptions_sort) of
        Inl e \<Rightarrow> Inl e
      | Inr s1 \<Rightarrow>
          (case add_attrName [0x31, 0x01] (Jason (CInt64 1) SmallInt) s1 of
             Inl e \<Rightarrow> Inl e
           | Inr s2 \<Rightarrow> add_attrName (replicate 128 0x61) (Jason (CInt64 1) SmallInt) s2))"

section \<open>The dumper\<close>

datatype UnsupportedTypeStrategy = STRATEGY_SUPPRESS | STRATEGY_FAIL

definition EscapeTable :: "byte list" where
  "EscapeTable =
     [0x75, 0x75, 0x75, 0x75, 0x75, 0x75, 0x75, 0x75, 0x62, 0x74, 0x6e, 0x75, 0x66, 0x72, 0x75, 0x75,
      0x75, 0x75, 0x75, 0x75, 0x75, 0x75, 0x75, 0x75, 0x75, 0x75, 0x75, 0x75, 0x75, 0x75, 0x75, 0x75,
         0,    0, 0x22,    0,    0,    0,    0,    0,    0,    0,    0,    0,    0,    0,    0, 0x2f,
         0,    0,    0,    0,    0,    0,    0,    0,    0,    0,    0,    0,    0,    0,    0,    0,
         0,    0,    0,    0,    0,    0,    0,    0,    0,    0,    0,    0,    0,    0,    0,    0,
         0,    0,    0,    0,    0,    0,    0,    0,    0,    0,    0,    0, 0x5c,    0,    0,    0,
         0,    0,    0,    0,    0,    0,    0,    0,    0,    0,    0,    0,    0,    0,    0,    0,
         0,    0,    0,    0,    0,    0,    0,    0,    0,    0,    0,    0,    0,    0,    0,    0,
         0,    0,    0,    0,    0,    0,    0,    0,    0,    0,    0,    0,    0,    0,    0,    0,
         0,    0,    0,    0,    0,    0,    0,    0,    0,    0,    0,    0,    0,    0,    0,    0,
         0,    0,    0,    0,    0,    0,    0,    0,    0,    0,    0,    0,    0,    0,    0,    0,
         0,    0,    0,    0,    0,    0,    0,    0,    0,    0,    0,    0,    0,    0,    0,    0,
         0,    0,    0,    0,    0,    0,    0,    0,    0,    0,    0,    0,    0,    0,    0,    0,
         0,    0,    0,    0,    0,    0,    0,    0,    0,    0,    0,    0,    0,    0,    0,    0,
         0,    0,    0,    0,    0,    0,    0,    0,    0,    0,    0,    0,    0,    0,    0,    0,
         0,    0,    0,    0,    0,    0,    0,    0,    0,    0,    0,    0,    0,    0,    0,    0]"

text \<open>The hexadecimal digit \<^verbatim>\<open>(i < 10) ? ('0' + i) : ('A' + i - 10)\<close>, cast to \<^verbatim>\<open>char\<close>.\<close>

definition hexDigit :: "16 word \<Rightarrow> byte" where
  "hexDigit i = ucast (if i < 10 then 0x30 + i else 0x41 + i - 10)"

text \<open>
  The bytes the ASCII branch of \<^verbatim>\<open>dumpString\<close> appends for the byte \<open>c\<close>: the escape from
  the table, with the four hexadecimal digits after a \<^verbatim>\<open>u\<close>, or the byte itself.
\<close>

definition dumpString_ascii :: "byte \<Rightarrow> byte list" where
  "dumpString_ascii c =
     (let esc = EscapeTable ! unat c in
      if esc \<noteq> 0 then
        [0x5c, esc] @
        (if esc = 0x75 then
           (let i1 = drop_bit 4 ((ucast c :: 16 word) AND 0xf0);
                i2 = (ucast c :: 16 word) AND 0x0f
            in [0x30, 0x30] @ [hexDigit i1] @ [hexDigit i2])
         else [])
      else [c])"

text \<open>
  \<^verbatim>\<open>dumpString(src, len)\<close>: the bytes from \<^verbatim>\<open>p\<close> to \<^verbatim>\<open>e\<close> and the output buffer. A lead
  byte of a multi-byte sequence copies the sequence; a byte that matches no branch only
  advances \<^verbatim>\<open>p\<close>.
\<close>

function dumpString :: "byte list \<Rightarrow> byte list \<Rightarrow> error + byte list" where
  "dumpString [] buffer = Inr buffer"
| "dumpString (c # rest) buffer =
    (if c AND 0x80 = 0 then dumpString rest (buffer @ dumpString_ascii c)
     else if c AND 0xe0 = 0xc0 then
       (if length rest < 1 then Inl (JasonDumperError ''unexpected end of string'')
        else dumpString (drop 1 rest) (buffer @ take 2 (c # rest)))
     else if c AND 0xf0 = 0xe0 then
       (if length rest < 2 then Inl (JasonDumperError ''unexpected end of string'')
        else dumpString (drop 2 rest) (buffer @ take 3 (c # rest)))
     else if c AND 0xf8 = 0xf0 then
       (if length rest < 3 then Inl (JasonDumperError ''unexpected end of string'')
        else dumpString (drop 3 rest) (buffer @ take 4 (c # rest)))
     else dumpString rest buffer)"
  by pat_completeness auto
termination
  by (relation "measure (\<lambda>(src, buffer). length src)") simp_all

declare dumpString.simps(2) [simp del]

text \<open>
  \<^verbatim>\<open>dumpInteger\<close>: one \<^verbatim>\<open>if (k <= v) push_back('0' + (v / k) % 10)\<close> per power of ten
  \<open>k\<close>, largest first, then the last digit. For an \<^verbatim>\<open>Int\<close> the value is negated
  before the digits whatever its sign, and \<^verbatim>\<open>/\<close> and \<^verbatim>\<open>%\<close> truncate towards zero.
\<close>

fun dumpInteger_UInt :: "nat \<Rightarrow> nat list \<Rightarrow> byte list" where
  "dumpInteger_UInt v [] = [of_nat (0x30 + v mod 10)]"
| "dumpInteger_UInt v (k # ks) =
     (if k \<le> v then [of_nat (0x30 + (v div k) mod 10)] else []) @ dumpInteger_UInt v ks"

fun dumpInteger_Int :: "int \<Rightarrow> int list \<Rightarrow> byte list" where
  "dumpInteger_Int v [] = [of_int (0x30 + v smod 10)]"
| "dumpInteger_Int v (k # ks) =
     (if k \<le> v then [of_int (0x30 + (v sdiv k) smod 10)] else []) @ dumpInteger_Int v ks"

definition dumpInteger :: "Slice \<Rightarrow> byte list \<Rightarrow> error + byte list" where
  "dumpInteger sl buffer =
     (case sl of
        UIntSlice v \<Rightarrow>
          Inr (buffer @ dumpInteger_UInt (unat v) (map (\<lambda>e. 10 ^ e) (rev [1..<20])))
      | IntSlice v \<Rightarrow>
          (let buffer1 = (if sint v < 0 then buffer @ [0x2d] else buffer) in
           if sint v = - (2 ^ 63) then Inr (buffer1 @ bytes_of ''9223372036854775808'')
           else Inr (buffer1 @ dumpInteger_Int (- sint v) (map (\<lambda>e. 10 ^ e) (rev [1..<19]))))
      | _ \<Rightarrow> Inl (JasonDumperError ''unexpected number type''))"

definition handleUnsupportedType ::
  "UnsupportedTypeStrategy \<Rightarrow> byte list \<Rightarrow> error + byte list" where
  "handleUnsupportedType strategy buffer =
     (if strategy = STRATEGY_SUPPRESS then Inr buffer
      else Inl (JasonDumperError ''unsupported type - cannot convert to JSON''))"

text \<open>
  \<^verbatim>\<open>internalDump\<close>, with the loops over the elements of an array and the pairs of an
  object as functions of the remaining elements and the loop counter \<open>i\<close>. The case
  \<^verbatim>\<open>Double\<close> prints through \<^verbatim>\<open>fpconv_dtoa\<close>; floating point is outside the embedding and
  the case has no equation.
\<close>

function (sequential) internalDump :: "UnsupportedTypeStrategy \<Rightarrow> Slice \<Rightarrow> byte list \<Rightarrow> error + byte list"
  and internalDump_array ::
    "UnsupportedTypeStrategy \<Rightarrow> Slice list \<Rightarrow> nat \<Rightarrow> byte list \<Rightarrow> error + byte list"
  and internalDump_object ::
    "UnsupportedTypeStrategy \<Rightarrow> (Slice \<times> Slice) list \<Rightarrow> nat \<Rightarrow> byte list \<Rightarrow> error + byte list"
  where
  "internalDump strategy NoneSlice buffer = handleUnsupportedType strategy buffer"
| "internalDump strategy NullSlice buffer = Inr (buffer @ bytes_of ''null'')"
| "internalDump strategy (BoolSlice b) buffer =
     (if b then Inr (buffer @ bytes_of ''true'') else Inr (buffer @ bytes_of ''false''))"
| "internalDump strategy (ArraySlice xs) buffer =
     (case internalDump_array strategy xs 0 (buffer @ [0x5b]) of
        Inl e \<Rightarrow> Inl e
      | Inr buffer1 \<Rightarrow> Inr (buffer1 @ [0x5d]))"
| "internalDump strategy (ObjectSlice kvs) buffer =
     (case internalDump_object strategy kvs 0 (buffer @ [0x7b]) of
        Inl e \<Rightarrow> Inl e
      | Inr buffer1 \<Rightarrow> Inr (buffer1 @ [0x7d]))"
| "internalDump strategy (ExternalSlice external) buffer = internalDump strategy external buffer"
| "internalDump strategy IDSlice buffer = handleUnsupportedType strategy buffer"
| "internalDump strategy ArangoDB_idSlice buffer = handleUnsupportedType strategy buffer"
| "internalDump strategy UTCDateSlice buffer = handleUnsupportedType strategy buffer"
| "internalDump strategy (IntSlice v) buffer = dumpInteger (IntSlice v) buffer"
| "internalDump strategy (UIntSlice v) buffer = dumpInteger (UIntSlice v) buffer"
| "internalDump strategy (SmallIntSlice v) buffer = dumpInteger (SmallIntSlice v) buffer"
| "internalDump strategy (StringSlice p) buffer =
     (case dumpString p (buffer @ [0x22]) of
        Inl e \<Rightarrow> Inl e
      | Inr buffer1 \<Rightarrow> Inr (buffer1 @ [0x22]))"
| "internalDump strategy BinarySlice buffer = handleUnsupportedType strategy buffer"
| "internalDump strategy BCDSlice buffer = handleUnsupportedType strategy buffer"
| "internalDump_array strategy [] i buffer = Inr buffer"
| "internalDump_array strategy (x # xs) i buffer =
     (case internalDump strategy x (if i > 0 then buffer @ [0x2c] else buffer) of
        Inl e \<Rightarrow> Inl e
      | Inr buffer1 \<Rightarrow> internalDump_array strategy xs (i + 1) buffer1)"
| "internalDump_object strategy [] i buffer = Inr buffer"
| "internalDump_object strategy ((k, v) # kvs) i buffer =
     (case internalDump strategy k (if i > 0 then buffer @ [0x2c] else buffer) of
        Inl e \<Rightarrow> Inl e
      | Inr buffer1 \<Rightarrow>
          (case internalDump strategy v (buffer1 @ [0x3a]) of
             Inl e \<Rightarrow> Inl e
           | Inr buffer2 \<Rightarrow> internalDump_object strategy kvs (i + 1) buffer2))"
  by pat_completeness auto
termination
  by (relation "measure (\<lambda>x. case x of
        Inl (strategy, sl, buffer) \<Rightarrow> size sl
      | Inr (Inl (strategy, xs, i, buffer)) \<Rightarrow> size_list size xs
      | Inr (Inr (strategy, kvs, i, buffer)) \<Rightarrow> size_list (size_prod size size) kvs)")
    simp_all

definition dump :: "UnsupportedTypeStrategy \<Rightarrow> Slice \<Rightarrow> byte list \<Rightarrow> error + byte list" where
  "dump strategy sl buffer = internalDump strategy sl buffer"

subsection \<open>What the dumper's strings are compared with\<close>

text \<open>
  The shape of UTF-8 the dumper relies on: an ASCII byte, or a lead byte \<open>0xC0..0xDF\<close>,
  \<open>0xE0..0xEF\<close>, \<open>0xF0..0xF7\<close> followed by one, two or three continuation bytes
  \<open>0x80..0xBF\<close>. Every valid UTF-8 string has this shape.
\<close>

definition continuation :: "byte \<Rightarrow> bool" where
  "continuation c = (0x80 \<le> c \<and> c \<le> 0xbf)"

fun utf8_sequences :: "byte list \<Rightarrow> bool" where
  "utf8_sequences [] = True"
| "utf8_sequences (c # rest) =
    (if c < 0x80 then utf8_sequences rest
     else if 0xc0 \<le> c \<and> c \<le> 0xdf then
       (case rest of c1 # r \<Rightarrow> continuation c1 \<and> utf8_sequences r | _ \<Rightarrow> False)
     else if 0xe0 \<le> c \<and> c \<le> 0xef then
       (case rest of c1 # c2 # r \<Rightarrow> continuation c1 \<and> continuation c2 \<and> utf8_sequences r
        | _ \<Rightarrow> False)
     else if 0xf0 \<le> c \<and> c \<le> 0xf7 then
       (case rest of c1 # c2 # c3 # r \<Rightarrow>
          continuation c1 \<and> continuation c2 \<and> continuation c3 \<and> utf8_sequences r
        | _ \<Rightarrow> False)
     else False)"

text \<open>
  The escape of a byte as JSON writes it: a named escape for \<^verbatim>\<open>\b \t \n \f \r\<close>, \<^verbatim>\<open>\u00XX\<close>
  with upper-case hexadecimal digits for the other bytes up to \<open>0x1F\<close>, a backslash before
  any other byte. \<open>escaped_as_claimed\<close> is the set of escaped bytes the specification
  names, \<open>escaped\<close> the set the escape table of the sources has, and \<open>dumped_byte esc c\<close> is
  what a dumper escaping the set \<open>esc\<close> writes for \<open>c\<close>.
\<close>

definition hexchar :: "byte \<Rightarrow> byte" where
  "hexchar n = (if n < 10 then 0x30 + n else 0x41 + (n - 10))"

definition escape_seq :: "byte \<Rightarrow> byte list" where
  "escape_seq c =
     (if c = 0x08 then [0x5c, 0x62]
      else if c = 0x09 then [0x5c, 0x74]
      else if c = 0x0a then [0x5c, 0x6e]
      else if c = 0x0c then [0x5c, 0x66]
      else if c = 0x0d then [0x5c, 0x72]
      else if c \<le> 0x1f then [0x5c, 0x75, 0x30, 0x30, hexchar (c div 16), hexchar (c mod 16)]
      else [0x5c, c])"

definition escaped_as_claimed :: "byte \<Rightarrow> bool" where
  "escaped_as_claimed c = (c \<le> 0x1f \<or> c = 0x22 \<or> c = 0x5c)"

definition escaped :: "byte \<Rightarrow> bool" where
  "escaped c = (escaped_as_claimed c \<or> c = 0x2f)"

definition dumped_byte :: "(byte \<Rightarrow> bool) \<Rightarrow> byte \<Rightarrow> byte list" where
  "dumped_byte esc c = (if esc c then escape_seq c else [c])"

text \<open>
  Where a character starts. \<open>stray c\<close> says that the byte is neither ASCII nor a lead
  byte; \<open>announced c\<close> is the number of bytes a lead byte announces after itself (0 for
  every other byte). In \<open>starts src\<close> a byte is marked \<open>True\<close> when a character starts at it
  and \<open>False\<close> when it is one of the bytes announced by the lead byte before it.
  \<open>truncated src\<close> says that the last lead byte announces more bytes than are left, and
  \<open>dumped_at st c\<close> is what the amended claim C10 says is written for the byte \<open>c\<close>:
  nothing for a stray byte where a character starts, the byte or its escape for another
  byte there, and the byte itself, whatever its value, behind a lead byte.
\<close>

definition stray :: "byte \<Rightarrow> bool" where
  "stray c = ((0x80 \<le> c \<and> c \<le> 0xbf) \<or> 0xf8 \<le> c)"

definition announced :: "byte \<Rightarrow> nat" where
  "announced c =
     (if 0xc0 \<le> c \<and> c \<le> 0xdf then 1
      else if 0xe0 \<le> c \<and> c \<le> 0xef then 2
      else if 0xf0 \<le> c \<and> c \<le> 0xf7 then 3
      else 0)"

function starts :: "byte list \<Rightarrow> bool list" where
  "starts [] = []"
| "starts (c # rest) =
     True # replicate (min (announced c) (length rest)) False @ starts (drop (announced c) rest)"
  by pat_completeness auto
termination
  by (relation "measure length") simp_all

function truncated :: "byte list \<Rightarrow> bool" where
  "truncated [] = False"
| "truncated (c # rest) = (length rest < announced c \<or> truncated (drop (announced c) rest))"
  by pat_completeness auto
termination
  by (relation "measure length") simp_all

definition dumped_at :: "bool \<Rightarrow> byte \<Rightarrow> byte list" where
  "dumped_at st c = (if st then (if stray c then [] else dumped_byte escaped c) else [c])"

section \<open>Integer width is minimal\<close>

lemma uintLength_loop_floorlog:
  "v \<noteq> 0 \<Longrightarrow> uintLength_loop v k = k + floorlog 256 (unat v)"
proof (induction v k rule: uintLength_loop.induct)
  case (1 v vSize)
  from \<open>v \<noteq> 0\<close> have vpos: "0 < unat v" by (simp add: unat_gt_0)
  have fl: "floorlog 256 (unat v) = floorlog 256 (unat v div 256) + 1"
    using vpos by (subst compute_floorlog) simp
  show ?case
  proof (cases "drop_bit 8 v = 0")
    case True
    then have "unat v div 256 = 0"
      using unat_drop_bit8 [of v] by simp
    then have "floorlog 256 (unat v) = 1"
      using fl by (simp add: floorlog_eq_zero_iff)
    with True show ?thesis
      by (subst uintLength_loop.simps) simp
  next
    case False
    then have "uintLength_loop (drop_bit 8 v) (vSize + 1) = vSize + 1 + floorlog 256 (unat (drop_bit 8 v))"
      using "1.IH" by simp
    with False fl show ?thesis
      by (subst uintLength_loop.simps) (simp add: unat_drop_bit8)
  qed
qed

lemma uintLength_floorlog: "v \<noteq> 0 \<Longrightarrow> uintLength v = floorlog 256 (unat v)"
proof (cases "v \<le> 0xff")
  case True
  assume "v \<noteq> 0"
  then have vpos: "0 < unat v" by (simp add: unat_gt_0)
  from True have "unat v \<le> 255" by (simp add: word_le_nat_alt)
  then have "unat v div 256 = 0" by simp
  then have "floorlog 256 (unat v) = 1"
    using vpos by (subst compute_floorlog) (simp add: floorlog_eq_zero_iff)
  with True show ?thesis by (simp add: uintLength_def)
next
  case False
  assume "v \<noteq> 0"
  with False show ?thesis by (simp add: uintLength_def uintLength_loop_floorlog)
qed

lemma uintLength_bounds:
  assumes "v \<noteq> 0"
  shows "256 ^ (uintLength v - 1) \<le> unat v \<and> unat v < 256 ^ uintLength v"
proof -
  from assms have "0 < unat v" by (simp add: unat_gt_0)
  then show ?thesis
    using floorlog_bounds [of "unat v" 256] by (simp add: uintLength_floorlog [OF assms])
qed

lemma uintLength_pos: "0 < uintLength v"
proof (cases "v = 0")
  case True then show ?thesis by (simp add: uintLength_def)
next
  case False
  then have "0 < unat v" by (simp add: unat_gt_0)
  then show ?thesis by (simp add: uintLength_floorlog [OF False] floorlog_def)
qed

lemma uintLength_ceil_log:
  assumes "v \<noteq> 0"
  shows "\<lceil>log 256 (real (unat v + 1))\<rceil> = int (uintLength v)"
proof -
  define n where "n = uintLength v"
  have b: "256 ^ (n - 1) \<le> unat v \<and> unat v < 256 ^ n"
    unfolding n_def by (rule uintLength_bounds [OF assms])
  have "0 < n" unfolding n_def by (rule uintLength_pos)
  then obtain m where m: "n = Suc m" by (cases n) auto
  have "\<lceil>log (real (256::nat)) (real (unat v + 1))\<rceil> = int m + 1"
    by (rule ceiling_log_nat_eq_if) (use b m in auto)
  then show ?thesis using m by (simp add: n_def)
qed

lemma pos_put [simp]: "pos (put b s) = pos s + 1"
  by (simp add: put_def)

lemma start_put [simp]: "start (put b s) = (start s)(pos s := b)"
  by (simp add: put_def)

lemma pos_appendUInt_loop [simp]: "pos (appendUInt_loop x k s) = pos s + k"
  by (induction k arbitrary: x s) simp_all

lemma start_appendUInt_loop:
  "start (appendUInt_loop x k s) a =
     (if pos s \<le> a \<and> a < pos s + k then ucast (drop_bit (8 * (a - pos s)) x) else start s a)"
proof (induction k arbitrary: x s a)
  case 0
  then show ?case by auto
next
  case (Suc k)
  have "(0xff :: 64 word) = mask 8"
    by (simp add: mask_eq_exp_minus_1)
  then have "x AND 0xff = take_bit 8 x"
    by (simp only: take_bit_eq_mask)
  then have low: "(ucast (x AND 0xff) :: byte) = ucast x"
    by (simp only:) (rule bit_word_eqI, auto simp: bit_simps)
  show ?case
  proof (cases "a = pos s")
    case True
    then show ?thesis by (simp add: Suc.IH low)
  next
    case False
    have "a - pos s = Suc (a - Suc (pos s))" if "pos s < a"
      using that by simp
    then show ?thesis
      using False by (auto simp: Suc.IH drop_bit_drop_bit add.commute)
  qed
qed

lemma region_appendUInt_loop:
  "region (start (appendUInt_loop x k s)) (pos s) k = map (\<lambda>i. ucast (drop_bit (8 * i) x)) [0..<k]"
  by (rule nth_equalityI) (simp_all add: region_def start_appendUInt_loop)

text \<open>
  Claim C6. \<^verbatim>\<open>uintLength(value)\<close> is 1 for every value up to \<open>0xff\<close> and otherwise the
  number \<open>d\<close> of base-256 digits of the value (\<open>256 ^ (d - 1) \<le> value < 256 ^ d\<close>). So for
  every \<open>V \<ge> 8\<close> the width is \<open>\<lceil>log\<^sub>2\<^sub>5\<^sub>6 (V + 1)\<rceil>\<close>, and \<^verbatim>\<open>appendUInt\<close> writes one tag byte
  \<open>base + width\<close> followed by exactly that many payload bytes, the little-endian base-256
  digits of \<open>V\<close>.
\<close>

theorem uintLength_minimal_width:
  "(v \<le> 0xff \<longrightarrow> uintLength v = 1) \<and>
   (0xff < v \<longrightarrow> 256 ^ (uintLength v - 1) \<le> unat v \<and> unat v < 256 ^ uintLength v) \<and>
   (8 \<le> unat v \<longrightarrow>
      int (uintLength v) = \<lceil>log 256 (real (unat v + 1))\<rceil> \<and>
      pos (appendUInt v base s) = pos s + 1 + uintLength v \<and>
      start (appendUInt v base s) (pos s) = base + of_nat (uintLength v) \<and>
      region (start (appendUInt v base s)) (pos s + 1) (uintLength v) =
        map (\<lambda>i. ucast (drop_bit (8 * i) v)) [0..<uintLength v])"
proof (intro conjI impI)
  assume "v \<le> 0xff"
  then show "uintLength v = 1"
    by (simp add: uintLength_def)
next
  assume "0xff < v"
  then have "v \<noteq> 0" by auto
  then show "256 ^ (uintLength v - 1) \<le> unat v" and "unat v < 256 ^ uintLength v"
    using uintLength_bounds by blast+
next
  assume "8 \<le> unat v"
  then have "v \<noteq> 0" by auto
  then show "int (uintLength v) = \<lceil>log 256 (real (unat v + 1))\<rceil>"
    by (rule uintLength_ceil_log [symmetric])
next
  show "pos (appendUInt v base s) = pos s + 1 + uintLength v"
    by (simp add: appendUInt_def Let_def)
next
  show "start (appendUInt v base s) (pos s) = base + of_nat (uintLength v)"
    by (simp add: appendUInt_def Let_def start_appendUInt_loop)
next
  have "region (start (appendUInt_loop v (uintLength v) (put (base + of_nat (uintLength v)) s)))
          (pos (put (base + of_nat (uintLength v)) s)) (uintLength v) =
        map (\<lambda>i. ucast (drop_bit (8 * i) v)) [0..<uintLength v]"
    by (rule region_appendUInt_loop)
  then show "region (start (appendUInt v base s)) (pos s + 1) (uintLength v) =
      map (\<lambda>i. ucast (drop_bit (8 * i) v)) [0..<uintLength v]"
    by (simp add: appendUInt_def Let_def)
qed

theorem uintLength_minimal_width_witness:
  "uintLength 300 = 2 \<and>
   \<lceil>log 256 (real (unat (300 :: 64 word) + 1))\<rceil> = 2 \<and>
   pos (appendUInt 300 0x17 (JasonBuilder_new (\<lambda>a. 0) \<lparr>sortAttributeNames = True, checkAttributeUniqueness_opt = False\<rparr>)) = 3 \<and>
   region (start (appendUInt 300 0x17 (JasonBuilder_new (\<lambda>a. 0) \<lparr>sortAttributeNames = True, checkAttributeUniqueness_opt = False\<rparr>))) 0 3 =
     [0x19, 0x2c, 0x01]"
proof -
  let ?s = "JasonBuilder_new (\<lambda>a. 0) \<lparr>sortAttributeNames = True, checkAttributeUniqueness_opt = False\<rparr>"
  have len: "uintLength 300 = 2"
    by (simp add: uintLength_def uintLength_loop.simps)
  have p0: "pos ?s = 0"
    by (simp add: JasonBuilder_new_def)
  have hyp: "8 \<le> unat (300 :: 64 word)"
    by simp
  note t = uintLength_minimal_width [of 300 "0x17" ?s]
  from t hyp have a: "int (uintLength 300) = \<lceil>log 256 (real (unat (300 :: 64 word) + 1))\<rceil>"
    by blast
  from t hyp have b: "pos (appendUInt 300 0x17 ?s) = pos ?s + 1 + uintLength 300"
    by blast
  from t hyp have c: "start (appendUInt 300 0x17 ?s) (pos ?s) = 0x17 + of_nat (uintLength 300)"
    by blast
  from t hyp have d: "region (start (appendUInt 300 0x17 ?s)) (pos ?s + 1) (uintLength 300) =
      map (\<lambda>i. ucast (drop_bit (8 * i) (300 :: 64 word))) [0..<uintLength 300]"
    by blast
  have two: "[0..<2] = [0, Suc 0]"
    by (simp add: upt_rec)
  have three: "[0..<3] = [0, Suc 0, Suc (Suc 0)]"
    by (simp add: upt_rec)
  from d have d': "start (appendUInt 300 0x17 ?s) (Suc 0) = 0x2c \<and>
      start (appendUInt 300 0x17 ?s) (Suc (Suc 0)) = 0x01"
    by (simp add: len p0 region_def two upt_rec)
  from c have c': "start (appendUInt 300 0x17 ?s) 0 = 0x19"
    by (simp add: len p0)
  show ?thesis
    using a b c' d' by (simp add: len p0 region_def three)
qed

section \<open>The dumper's strings\<close>

lemma byte_all: "(\<forall>c::byte. P c) = list_all (\<lambda>n. P (of_nat n)) [0..<256]"
proof -
  have "(\<forall>c::byte. P c) = (\<forall>n<256. P (of_nat n :: byte))"
  proof
    assume "\<forall>c. P c" then show "\<forall>n<256. P (of_nat n)" by simp
  next
    assume a: "\<forall>n<256. P (of_nat n :: byte)"
    show "\<forall>c. P c"
    proof
      fix c :: byte
      obtain n where "c = of_nat n" "n < 2 ^ LENGTH(8)"
        using word_nchotomy [where 'a=8] by blast
      with a show "P c" by simp
    qed
  qed
  then show ?thesis by (auto simp: list_all_iff)
qed

lemma byte_masks_all:
  "\<forall>c::byte. (c AND 0x80 = 0 \<longleftrightarrow> c < 0x80) \<and>
     (c AND 0xe0 = 0xc0 \<longleftrightarrow> 0xc0 \<le> c \<and> c \<le> 0xdf) \<and>
     (c AND 0xf0 = 0xe0 \<longleftrightarrow> 0xe0 \<le> c \<and> c \<le> 0xef) \<and>
     (c AND 0xf8 = 0xf0 \<longleftrightarrow> 0xf0 \<le> c \<and> c \<le> 0xf7)"
  unfolding byte_all by code_simp

lemma dumpString_ascii_all:
  "\<forall>c::byte. c < 0x80 \<longrightarrow> dumpString_ascii c = dumped_byte escaped c"
  unfolding byte_all by code_simp

lemma byte_masks:
  fixes c :: byte
  shows "(c AND 0x80 = 0) = (c < 0x80)"
    and "(c AND 0xe0 = 0xc0) = (0xc0 \<le> c \<and> c \<le> 0xdf)"
    and "(c AND 0xf0 = 0xe0) = (0xe0 \<le> c \<and> c \<le> 0xef)"
    and "(c AND 0xf8 = 0xf0) = (0xf0 \<le> c \<and> c \<le> 0xf7)"
  using byte_masks_all by blast+

lemma dumpString_ascii_eq: "c < 0x80 \<Longrightarrow> dumpString_ascii c = dumped_byte escaped c"
  using dumpString_ascii_all by blast

lemma dumped_byte_high: "0x80 \<le> (c :: byte) \<Longrightarrow> dumped_byte escaped c = [c]"
  by (auto simp: dumped_byte_def escaped_def escaped_as_claimed_def word_le_nat_alt)

lemma dumpString_ascii_step:
  "c < 0x80 \<Longrightarrow> dumpString (c # rest) buffer = dumpString rest (buffer @ dumped_byte escaped c)"
  by (subst dumpString.simps) (simp only: byte_masks dumpString_ascii_eq if_True)

lemma dumpString_two_step:
  "0xc0 \<le> c \<and> c \<le> 0xdf \<Longrightarrow>
     dumpString (c # c1 # r) buffer = dumpString r (buffer @ [c, c1])"
proof -
  assume a: "0xc0 \<le> c \<and> c \<le> 0xdf"
  then have "\<not> c < 0x80"
    by (auto simp: word_le_nat_alt word_less_nat_alt)
  with a have m: "c AND 0x80 \<noteq> 0" "c AND 0xe0 = 0xc0"
    by (simp_all only: byte_masks not_False_eq_True)
  show ?thesis
    by (subst dumpString.simps) (simp add: m)
qed

lemma dumpString_three_step:
  "0xe0 \<le> c \<and> c \<le> 0xef \<Longrightarrow>
     dumpString (c # c1 # c2 # r) buffer = dumpString r (buffer @ [c, c1, c2])"
proof -
  assume a: "0xe0 \<le> c \<and> c \<le> 0xef"
  then have "\<not> c < 0x80" "\<not> (0xc0 \<le> c \<and> c \<le> 0xdf)"
    by (auto simp: word_le_nat_alt word_less_nat_alt)
  with a have m: "c AND 0x80 \<noteq> 0" "c AND 0xe0 \<noteq> 0xc0" "c AND 0xf0 = 0xe0"
    by (simp_all only: byte_masks not_False_eq_True)
  show ?thesis
    by (subst dumpString.simps) (simp add: m)
qed

lemma dumpString_four_step:
  "0xf0 \<le> c \<and> c \<le> 0xf7 \<Longrightarrow>
     dumpString (c # c1 # c2 # c3 # r) buffer = dumpString r (buffer @ [c, c1, c2, c3])"
proof -
  assume a: "0xf0 \<le> c \<and> c \<le> 0xf7"
  then have "\<not> c < 0x80" "\<not> (0xc0 \<le> c \<and> c \<le> 0xdf)" "\<not> (0xe0 \<le> c \<and> c \<le> 0xef)"
    by (auto simp: word_le_nat_alt word_less_nat_alt)
  with a have m: "c AND 0x80 \<noteq> 0" "c AND 0xe0 \<noteq> 0xc0" "c AND 0xf0 \<noteq> 0xe0"
      "c AND 0xf8 = 0xf0"
    by (simp_all only: byte_masks not_False_eq_True)
  show ?thesis
    by (subst dumpString.simps) (simp add: m)
qed

lemma dumped_byte_lead: "0xc0 \<le> (c :: byte) \<Longrightarrow> dumped_byte escaped c = [c]"
  by (rule dumped_byte_high) (simp add: word_le_nat_alt)

lemma dumped_byte_continuation: "continuation c \<Longrightarrow> dumped_byte escaped c = [c]"
  by (rule dumped_byte_high) (simp add: continuation_def)

text \<open>
  Claim C4, amended. The escaped bytes are \<open>0x00..0x1F\<close>, the double quote, the backslash
  and also the forward slash \<open>0x2F\<close> (written \<^verbatim>\<open>\/\<close>): for every string of the UTF-8 shape,
  \<^verbatim>\<open>dumpString\<close> succeeds and appends, byte by byte, the escape of each of these bytes and
  every other byte unchanged.
\<close>

theorem dumpString_escapes:
  "utf8_sequences src \<Longrightarrow>
     dumpString src buffer = Inr (buffer @ concat (map (dumped_byte escaped) src))"
proof (induction src arbitrary: buffer rule: utf8_sequences.induct)
  case 1
  then show ?case by simp
next
  case (2 c rest)
  consider (ascii) "c < 0x80"
    | (two) "\<not> c < 0x80" "0xc0 \<le> c \<and> c \<le> 0xdf"
    | (three) "\<not> c < 0x80" "\<not> (0xc0 \<le> c \<and> c \<le> 0xdf)" "0xe0 \<le> c \<and> c \<le> 0xef"
    | (four) "\<not> c < 0x80" "\<not> (0xc0 \<le> c \<and> c \<le> 0xdf)" "\<not> (0xe0 \<le> c \<and> c \<le> 0xef)"
        "0xf0 \<le> c \<and> c \<le> 0xf7"
    | (none) "\<not> c < 0x80" "\<not> (0xc0 \<le> c \<and> c \<le> 0xdf)" "\<not> (0xe0 \<le> c \<and> c \<le> 0xef)"
        "\<not> (0xf0 \<le> c \<and> c \<le> 0xf7)"
    by blast
  then show ?case
  proof cases
    case ascii
    with "2.prems" have "utf8_sequences rest" by simp
    with ascii "2.IH"(1) show ?thesis
      by (simp add: dumpString_ascii_step)
  next
    case two
    with "2.prems" obtain c1 r where rest: "rest = c1 # r" "continuation c1" "utf8_sequences r"
      by (auto split: list.splits)
    have "dumpString r (buffer @ [c, c1]) =
        Inr ((buffer @ [c, c1]) @ concat (map (dumped_byte escaped) r))"
      using "2.IH"(2) two rest by simp
    then show ?thesis
      using two rest
      by (simp add: dumpString_two_step dumped_byte_lead dumped_byte_continuation)
  next
    case three
    with "2.prems" obtain c1 c2 r where
      rest: "rest = c1 # c2 # r" "continuation c1" "continuation c2" "utf8_sequences r"
      by (auto split: list.splits)
    have "dumpString r (buffer @ [c, c1, c2]) =
        Inr ((buffer @ [c, c1, c2]) @ concat (map (dumped_byte escaped) r))"
      using "2.IH"(3) three rest by simp
    moreover from three have "0xc0 \<le> c"
      by (simp add: word_le_nat_alt)
    ultimately show ?thesis
      using three rest
      by (simp add: dumpString_three_step dumped_byte_lead dumped_byte_continuation)
  next
    case four
    with "2.prems" obtain c1 c2 c3 r where
      rest: "rest = c1 # c2 # c3 # r" "continuation c1" "continuation c2" "continuation c3"
        "utf8_sequences r"
      by (auto split: list.splits)
    have "dumpString r (buffer @ [c, c1, c2, c3]) =
        Inr ((buffer @ [c, c1, c2, c3]) @ concat (map (dumped_byte escaped) r))"
      using "2.IH"(4) four rest by simp
    moreover from four have "0xc0 \<le> c"
      by (simp add: word_le_nat_alt)
    ultimately show ?thesis
      using four rest
      by (simp add: dumpString_four_step dumped_byte_lead dumped_byte_continuation)
  next
    case none
    with "2.prems" show ?thesis by simp
  qed
qed

theorem dumpString_escapes_witness:
  "utf8_sequences [0x61, 0x2f, 0x0a, 0x1f, 0x22, 0xc3, 0xa4] \<and>
   dumpString [0x61, 0x2f, 0x0a, 0x1f, 0x22, 0xc3, 0xa4] [] =
     Inr [0x61, 0x5c, 0x2f, 0x5c, 0x6e, 0x5c, 0x75, 0x30, 0x30, 0x31, 0x46, 0x5c, 0x22, 0xc3, 0xa4]"
proof -
  have u: "utf8_sequences [0x61, 0x2f, 0x0a, 0x1f, 0x22, 0xc3, 0xa4]"
    by (simp add: continuation_def)
  show ?thesis
    using u dumpString_escapes [OF u, of "[]"]
    by (simp add: dumped_byte_def escaped_def escaped_as_claimed_def escape_seq_def hexchar_def)
qed

text \<open>
  The claim as stated fails at the one-byte string \<^verbatim>\<open>/\<close>: the dumper writes \<^verbatim>\<open>\/\<close>, not
  the byte itself.
\<close>

theorem dumpString_slash_counterexample:
  "dumpString [0x2f] [] = Inr [0x5c, 0x2f] \<and>
   dumpString [0x2f] [] \<noteq> Inr (concat (map (dumped_byte escaped_as_claimed) [0x2f]))"
proof -
  have "dumpString_ascii 0x2f = [0x5c, 0x2f]"
    by (simp add: dumpString_ascii_def EscapeTable_def)
  then have "dumpString [0x2f] [] = Inr [0x5c, 0x2f]"
    by (simp add: dumpString.simps)
  then show ?thesis
    by (simp add: dumped_byte_def escaped_as_claimed_def)
qed

section \<open>Types without a JSON meaning\<close>

text \<open>
  Claim C9, amended. For a slice of type \<^verbatim>\<open>None\<close>, \<^verbatim>\<open>Binary\<close>, \<^verbatim>\<open>BCD\<close>, \<^verbatim>\<open>UTCDate\<close>,
  \<^verbatim>\<open>ID\<close> or \<^verbatim>\<open>ArangoDB_id\<close> the dumper raises the error under \<^verbatim>\<open>STRATEGY_FAIL\<close>, also
  when the slice is an array element; under \<^verbatim>\<open>STRATEGY_SUPPRESS\<close> it writes nothing for the
  slice in every position: as an array element and as an object value the separators
  around it are still written, and \<^verbatim>\<open>null\<close> never is.
\<close>

theorem unsupported_type_strategies:
  assumes "sl \<in> {NoneSlice, BinarySlice, BCDSlice, UTCDateSlice, IDSlice, ArangoDB_idSlice}"
  shows "internalDump STRATEGY_FAIL sl buffer =
           Inl (JasonDumperError ''unsupported type - cannot convert to JSON'') \<and>
         internalDump_array STRATEGY_FAIL (sl # xs) i buffer =
           Inl (JasonDumperError ''unsupported type - cannot convert to JSON'') \<and>
         internalDump STRATEGY_SUPPRESS sl buffer = Inr buffer \<and>
         internalDump_array STRATEGY_SUPPRESS (sl # xs) i buffer =
           internalDump_array STRATEGY_SUPPRESS xs (i + 1) (if i > 0 then buffer @ [0x2c] else buffer) \<and>
         internalDump_object STRATEGY_SUPPRESS ((StringSlice key, sl) # kvs) i buffer =
           (case dumpString key ((if i > 0 then buffer @ [0x2c] else buffer) @ [0x22]) of
              Inl e \<Rightarrow> Inl e
            | Inr buffer1 \<Rightarrow>
                internalDump_object STRATEGY_SUPPRESS kvs (i + 1) (buffer1 @ [0x22, 0x3a]))"
proof -
  from assms have u: "\<And>strategy b. internalDump strategy sl b = handleUnsupportedType strategy b"
    by auto
  show ?thesis
    by (simp add: u handleUnsupportedType_def split: sum.splits)
qed

theorem unsupported_type_strategies_witness:
  "internalDump STRATEGY_FAIL BinarySlice [] =
     Inl (JasonDumperError ''unsupported type - cannot convert to JSON'') \<and>
   internalDump STRATEGY_SUPPRESS BinarySlice [0x5b] = Inr [0x5b] \<and>
   internalDump_array STRATEGY_SUPPRESS [BinarySlice, NullSlice] 0 [0x5b] =
     Inr (bytes_of ''[,null'')"
proof -
  have m: "BinarySlice \<in> {NoneSlice, BinarySlice, BCDSlice, UTCDateSlice, IDSlice, ArangoDB_idSlice}"
    by simp
  have a: "internalDump STRATEGY_FAIL BinarySlice [] =
     Inl (JasonDumperError ''unsupported type - cannot convert to JSON'')"
    using unsupported_type_strategies [OF m, of "[]"] by blast
  have b: "internalDump STRATEGY_SUPPRESS BinarySlice [0x5b] = Inr [0x5b]"
    using unsupported_type_strategies [OF m, of "[0x5b]"] by blast
  have c: "internalDump_array STRATEGY_SUPPRESS [BinarySlice, NullSlice] 0 [0x5b] =
      internalDump_array STRATEGY_SUPPRESS [NullSlice] (0 + 1) (if (0::nat) > 0 then [0x5b] @ [0x2c] else [0x5b])"
    using unsupported_type_strategies [OF m, of "[0x5b]" "[NullSlice]" 0] by blast
  show ?thesis
    using a b c by (simp add: bytes_of_def)
qed

text \<open>
  The claim as stated fails for the array \<^verbatim>\<open>[null, <binary>]\<close> under
  \<^verbatim>\<open>STRATEGY_SUPPRESS\<close>: the output is \<^verbatim>\<open>[null,]\<close>, with nothing at the second element.
\<close>

theorem suppress_emits_no_null_counterexample:
  "dump STRATEGY_SUPPRESS (ArraySlice [NullSlice, BinarySlice]) [] = Inr (bytes_of ''[null,]'') \<and>
   dump STRATEGY_SUPPRESS (ArraySlice [NullSlice, BinarySlice]) [] \<noteq> Inr (bytes_of ''[null,null]'')"
  by (simp add: dump_def handleUnsupportedType_def bytes_of_def)

section \<open>Bytes that start no character\<close>

lemma byte_classes_all:
  "\<forall>c::byte. (stray c \<longleftrightarrow> \<not> c < 0x80 \<and> announced c = 0) \<and> (c < 0x80 \<longrightarrow> announced c = 0)"
  unfolding byte_all by code_simp

lemma stray_iff: "stray c = (\<not> c < 0x80 \<and> announced c = 0)"
  using byte_classes_all by blast

lemma announced_ascii: "c < 0x80 \<Longrightarrow> announced c = 0"
  using byte_classes_all by blast

lemma dumpString_step:
  "dumpString (c # rest) buffer =
     (if c < 0x80 then dumpString rest (buffer @ dumped_byte escaped c)
      else if announced c = 0 then dumpString rest buffer
      else if length rest < announced c then Inl (JasonDumperError ''unexpected end of string'')
      else dumpString (drop (announced c) rest) (buffer @ c # take (announced c) rest))"
  by (subst dumpString.simps)
    (simp add: byte_masks dumpString_ascii_eq announced_def)

lemma concat_copied:
  "length xs = n \<Longrightarrow> concat (map2 dumped_at (replicate n False) xs) = xs"
  by (induction xs arbitrary: n) (auto simp: dumped_at_def)




section \<open>Sealing, adding and reading in the builder\<close>

lemma stack_reportAdd [simp]: "stack (reportAdd base s) = stack s"
  and pos_reportAdd [simp]: "pos (reportAdd base s) = pos s"
  and start_reportAdd [simp]: "start (reportAdd base s) = start s"
  and options_reportAdd [simp]: "options (reportAdd base s) = options s"
  by (simp_all add: reportAdd_def Let_def)

lemma add_compound_cases:
  assumes "add (Jason v t) s = Inr s1" and "t = Object \<or> t = Array"
  shows "\<exists>s0. s1 = addCompoundValue (if t = Object then 0x07 else 0x05) s0 \<and> stack s0 = stack s \<and>
           pos s0 = pos s \<and> start s0 = start s"
proof -
  from assms(2) have set_eq: "\<And>s0. set_Jason (Jason v t) s0 =
      Inr (addCompoundValue (if t = Object then 0x07 else 0x05) s0)"
    by (auto simp: addObject_def addArray_def)
  from assms(1) show ?thesis
    unfolding add_def Let_def set_eq
    by (auto split: if_splits intro!: exI)
qed

lemma close_compact_fields [simp]:
  "stack (close_compact tos s) = stack s"
  "pos (close_compact tos s) = pos s - 8"
  "options (close_compact tos s) = options s"
  "attrWritten (close_compact tos s) = attrWritten s"
  "index (close_compact tos s) =
     (index s)[length (stack s) - 1 := map (\<lambda>x. x - 8) (index s ! (length (stack s) - 1))]"
  "start (close_compact tos s) =
     (if pos s > tos + 10 then memmove (start s) (tos + 2) (tos + 10) (pos s - (tos + 10))
      else start s)"
  by (simp_all add: close_compact_def Let_def)

lemma close_writeByteLength_fields [simp]:
  "stack (close_writeByteLength b tos s) = stack s"
  "pos (close_writeByteLength b tos s) = pos s"
  "options (close_writeByteLength b tos s) = options s"
  "attrWritten (close_writeByteLength b tos s) = attrWritten s"
  "index (close_writeByteLength b tos s) = index s"
  by (simp_all add: close_writeByteLength_def)

lemma close_writeSmallTable_empty:
  assumes "index s ! (length (stack s) - 1) = []" and "start s tos AND 1 \<noteq> 0"
  shows "close_writeSmallTable srt tos s =
     Inr (s\<lparr>start := (start s)(pos s - 1 := 0),
            index := (index s)[length (stack s) - 1 := []]\<rparr>)"
  using assms by (simp add: close_writeSmallTable_def Let_def)

lemma close_addCompoundValue:
  assumes "ty = 0x05 \<or> ty = 0x07"
  shows "\<exists>s2. close srt decode (addCompoundValue ty s0) = Inr s2 \<and> pos s2 = pos s0 + 2 \<and>
           stack s2 = stack s0 \<and> start s2 (pos s0) = ty \<and> start s2 (pos s0 + 1) = 0x02"
proof -
  define s1 where "s1 = addCompoundValue ty s0"
  define tos where "tos = pos s0"
  have st: "stack s1 = stack s0 @ [tos]"
    by (simp add: s1_def tos_def addCompoundValue_def Let_def put_def)
  have ps: "pos s1 = tos + 10"
    by (simp add: s1_def tos_def addCompoundValue_def Let_def put_def)
  have tag: "start s1 tos = ty"
    by (simp add: s1_def tos_def addCompoundValue_def Let_def put_def)
  have idx: "index s1 ! (length (stack s1) - 1) = []"
    by (simp add: s1_def tos_def addCompoundValue_def Let_def put_def)
  have len: "length (stack s1) - 1 < length (index s1)"
    by (simp add: s1_def tos_def addCompoundValue_def Let_def put_def)
  have tagr: "\<not> (ty < 0x05 \<or> ty > 0x08)" "ty AND 1 \<noteq> 0"
    using assms by auto
  have sbl: "close_smallByteLength tos s1"
    using idx by (simp add: close_smallByteLength_def ps)
  have stb: "close_smallTable tos s1"
    by (simp add: close_smallTable_def sbl)
  define s1c where "s1c = close_compact tos s1"
  have c_idx: "index s1c ! (length (stack s1c) - 1) = []"
    using idx len by (simp add: s1c_def)
  have c_tag: "start s1c tos = ty"
    by (simp add: s1c_def ps tag)
  have c_pos: "pos s1c = tos + 2"
    by (simp add: s1c_def ps)
  have c_st: "stack s1c = stack s0 @ [tos]"
    by (simp add: s1c_def st)
  define s2 where "s2 = s1c\<lparr>start := (start s1c)(pos s1c - 1 := 0),
      index := (index s1c)[length (stack s1c) - 1 := []]\<rparr>"
  have w: "close_writeSmallTable srt tos s1c = Inr s2"
    unfolding s2_def using c_idx c_tag tagr(2) by (intro close_writeSmallTable_empty) simp_all
  define s3 where "s3 = close_writeByteLength True tos s2"
  have s3_start: "start s3 tos = ty" "start s3 (tos + 1) = 0x02"
    by (simp_all add: s3_def s2_def close_writeByteLength_def c_pos c_tag)
  have "close srt decode s1 = Inr (s3\<lparr>stack := butlast (stack s3)\<rparr>)"
    unfolding close_def
    using tagr(1) idx by (simp add: st tag sbl stb Let_def s1c_def [symmetric] w s3_def [symmetric])
  moreover have "pos (s3\<lparr>stack := butlast (stack s3)\<rparr>) = pos s0 + 2"
    by (simp add: s3_def s2_def c_pos tos_def)
  moreover have "stack (s3\<lparr>stack := butlast (stack s3)\<rparr>) = stack s0"
    by (simp add: s3_def s2_def c_st)
  ultimately show ?thesis
    using s3_start by (simp add: s1_def tos_def)
qed

lemma memcpy_below: "a < dst \<Longrightarrow> memcpy m dst bs a = m a"
  by (induction bs arbitrary: m dst) simp_all

lemma memcpy_at: "i < length bs \<Longrightarrow> memcpy m dst bs (dst + i) = bs ! i"
proof (induction bs arbitrary: m dst i)
  case Nil
  then show ?case by simp
next
  case (Cons b bs)
  show ?case
  proof (cases i)
    case 0
    then show ?thesis by (simp add: memcpy_below)
  next
    case (Suc j)
    with Cons.prems have "j < length bs" by simp
    then have "memcpy (m(dst := b)) (dst + 1) bs ((dst + 1) + j) = bs ! j"
      by (rule Cons.IH)
    with Suc show ?thesis by simp
  qed
qed

lemma storeLength_below: "b < a \<Longrightarrow> storeLength m a x k b = m b"
  by (induction k arbitrary: m a x) simp_all

lemma storeLength_above: "a + k \<le> b \<Longrightarrow> storeLength m a x k b = m b"
  by (induction k arbitrary: m a x) simp_all

lemma storeLength_at:
  "j < k \<Longrightarrow> storeLength m a x k (a + j) = of_nat (x div 256 ^ j mod 256)"
proof (induction k arbitrary: m a x j)
  case 0
  then show ?case by simp
next
  case (Suc k)
  show ?case
  proof (cases j)
    case 0
    then show ?thesis by (simp add: storeLength_below)
  next
    case (Suc i)
    with Suc.prems have "i < k" by simp
    then have "storeLength (m(a := of_nat (x mod 256))) (a + 1) (x div 256) k ((a + 1) + i) =
        of_nat ((x div 256) div 256 ^ i mod 256)"
      by (rule Suc.IH)
    with Suc show ?thesis by (simp add: div_mult2_eq)
  qed
qed

lemma writeSmallTable_below: "b < a \<Longrightarrow> writeSmallTable m a xs b = m b"
  by (induction xs arbitrary: m a) simp_all

lemma writeLargeTable_below: "b < a \<Longrightarrow> writeLargeTable m a xs b = m b"
  by (induction xs arbitrary: m a) (simp_all add: storeLength_below)

lemma tag_values:
  fixes t :: byte
  assumes "\<not> (t < 0x05 \<or> t > 0x08)"
  shows "t = 0x05 \<or> t = 0x06 \<or> t = 0x07 \<or> t = 0x08"
proof -
  from assms have "5 \<le> unat t" "unat t \<le> 8"
    by (simp_all add: word_less_nat_alt word_le_nat_alt not_less)
  then have "unat t = 5 \<or> unat t = 6 \<or> unat t = 7 \<or> unat t = 8"
    by arith
  then show ?thesis
    by (auto simp: word_unat_eq_iff)
qed

text \<open>
  Claim C5. Opening an object with \<^verbatim>\<open>add\<close> and closing it at once leaves exactly the two
  bytes \<open>0x07, 0x02\<close> at the place where it was opened (\<open>0x05, 0x02\<close> for an array): the
  append position is two bytes further, the stack is as before, there is no index table,
  and the zero count written at \<open>tos + 1\<close> is overwritten by the byte length 2.
\<close>

theorem close_empty_compound:
  assumes "add (Jason v t) s = Inr s1" and "t = Object \<or> t = Array"
  shows "\<exists>s2. close srt decode s1 = Inr s2 \<and> pos s2 = pos s + 2 \<and> stack s2 = stack s \<and>
           region (start s2) (pos s) 2 = [if t = Object then 0x07 else 0x05, 0x02]"
proof -
  from add_compound_cases [OF assms] obtain s0 where
    s0: "s1 = addCompoundValue (if t = Object then 0x07 else 0x05) s0" "stack s0 = stack s"
      "pos s0 = pos s" "start s0 = start s"
    by blast
  have "(if t = Object then 0x07 else 0x05 :: byte) = 0x05 \<or>
      (if t = Object then 0x07 else 0x05 :: byte) = 0x07"
    by simp
  from close_addCompoundValue [OF this, of srt decode s0] obtain s2 where
    "close srt decode s1 = Inr s2" "pos s2 = pos s + 2" "stack s2 = stack s"
    "start s2 (pos s) = (if t = Object then 0x07 else 0x05)" "start s2 (pos s + 1) = 0x02"
    using s0 by auto
  then show ?thesis
    by (auto simp: region_def upt_rec)
qed

theorem close_empty_compound_witness:
  "(\<exists>s1 s2. add (Jason CNone Object) (JasonBuilder_new (\<lambda>a. 0xee) JasonOptions_check) = Inr s1 \<and>
      close by_insertion (\<lambda>sl. NullSlice) s1 = Inr s2 \<and> size_builder s2 = Inr 2 \<and>
      region (start s2) 0 2 = [0x07, 0x02]) \<and>
   (\<exists>s1 s2. add (Jason CNone Array) (JasonBuilder_new (\<lambda>a. 0xee) JasonOptions_check) = Inr s1 \<and>
      close by_insertion (\<lambda>sl. NullSlice) s1 = Inr s2 \<and> size_builder s2 = Inr 2 \<and>
      region (start s2) 0 2 = [0x05, 0x02])"
proof -
  let ?b = "JasonBuilder_new (\<lambda>a. 0xee) JasonOptions_check"
  have b: "pos ?b = 0" "stack ?b = []"
    by (simp_all add: JasonBuilder_new_def)
  have o: "add (Jason CNone Object) ?b = Inr (addObject ?b)"
    by (simp add: add_def JasonBuilder_new_def)
  have a: "add (Jason CNone Array) ?b = Inr (addArray ?b)"
    by (simp add: add_def JasonBuilder_new_def)
  from close_empty_compound [OF o, of by_insertion "\<lambda>sl. NullSlice"] obtain s2 where
    "close by_insertion (\<lambda>sl. NullSlice) (addObject ?b) = Inr s2" "pos s2 = 2" "stack s2 = []"
    "region (start s2) 0 2 = [0x07, 0x02]"
    using b by auto
  then have 1: "\<exists>s1 s2. add (Jason CNone Object) ?b = Inr s1 \<and>
      close by_insertion (\<lambda>sl. NullSlice) s1 = Inr s2 \<and> size_builder s2 = Inr 2 \<and>
      region (start s2) 0 2 = [0x07, 0x02]"
    using o by (auto simp: size_builder_def)
  from close_empty_compound [OF a, of by_insertion "\<lambda>sl. NullSlice"] obtain s2 where
    "close by_insertion (\<lambda>sl. NullSlice) (addArray ?b) = Inr s2" "pos s2 = 2" "stack s2 = []"
    "region (start s2) 0 2 = [0x05, 0x02]"
    using b by auto
  then have 2: "\<exists>s1 s2. add (Jason CNone Array) ?b = Inr s1 \<and>
      close by_insertion (\<lambda>sl. NullSlice) s1 = Inr s2 \<and> size_builder s2 = Inr 2 \<and>
      region (start s2) 0 2 = [0x05, 0x02]"
    using a by (auto simp: size_builder_def)
  from 1 2 show ?thesis by blast
qed

text \<open>
  Claim C7 fails on the code. A value of C type \<^verbatim>\<open>uint64_t\<close> stored as \<^verbatim>\<open>SmallInt\<close> is
  refused whatever the number: 5 is in range, and \<^verbatim>\<open>set\<close> throws "Must give number".
\<close>

theorem set_SmallInt_UInt64_throws:
  "set_Jason (Jason (CUInt64 5) SmallInt) s =
     Inl (JasonBuilderError ''Must give number for JasonType::SmallInt.'') \<and>
   add (Jason (CUInt64 5) SmallInt) (JasonBuilder_new m opts) =
     Inl (JasonBuilderError ''Must give number for JasonType::SmallInt.'')"
  by (simp add: set_SmallInt_def add_def JasonBuilder_new_def)

text \<open>
  For a value of C type \<^verbatim>\<open>int64_t\<close> the claim holds: out of \<open>[-8..7]\<close> the error is the range
  error, in range the byte is \<open>0x30 + v\<close> or \<open>0x38 + (v + 8)\<close>.
\<close>

lemma set_SmallInt_Int64:
  "set_Jason (Jason (CInt64 vv) SmallInt) s =
     (if sint vv < - 8 \<or> 7 < sint vv
      then Inl (JasonBuilderError ''Number out of range of JasonType::SmallInt.'')
      else Inr (put (if 0 \<le> sint vv then ucast (vv + 0x30) else ucast (vv + 8 + 0x38)) s))"
  by (simp add: set_SmallInt_def)

lemma set_SmallInt_Int64_byte:
  fixes vv :: "64 word"
  assumes "- 8 \<le> sint vv" and "sint vv \<le> 7"
  shows "uint (if 0 \<le> sint vv then ucast (vv + 0x30) else ucast (vv + 8 + 0x38) :: byte) =
     (if 0 \<le> sint vv then 0x30 + sint vv else 0x38 + (sint vv + 8))"
proof -
  have vv: "vv = word_of_int k" if "sint vv = k" for k
  proof -
    have "(scast vv :: 64 word) = word_of_int (sint vv)"
      by (rule scast_eq)
    with that show ?thesis by simp
  qed
  from assms have "sint vv \<in> {- 8, - 7, - 6, - 5, - 4, - 3, - 2, - 1, 0, 1, 2, 3, 4, 5, 6, 7}"
    by simp arith
  then show ?thesis
    by (elim insertE emptyE) (frule vv, simp)+
qed

lemma xyx_check: "checkAttributeUniqueness xyx_slice = Inr ()"
  by (simp add: xyx_slice_def isObject_def)

lemma xyx_builder_close:
  "\<exists>s s'. xyx_builder = Inr s \<and> pos s = 19 \<and> stack s = [0] \<and> index s = [[10, 13, 16]] \<and>
     start s 0 = 0x07 \<and> close srt (\<lambda>sl. xyx_slice) s = Inr s' \<and> pos s' = 18 \<and> stack s' = [] \<and>
     region (start s') 0 18 =
       [0x07, 0x12, 0x41, 0x78, 0x31, 0x41, 0x79, 0x32, 0x41, 0x78, 0x33,
        0x02, 0x00, 0x05, 0x00, 0x08, 0x00, 0x03]"
  by (simp add: xyx_builder_def add_def add_attrName_def JasonBuilder_new_def addObject_def
      addCompoundValue_def put_def reportAdd_def set_String_def set_String_bytes_def
      set_SmallInt_def Let_def region_def upt_rec JasonOptions_check_def
      close_def close_smallByteLength_def close_smallTable_def close_compact_def
      close_writeSmallTable_def close_writeByteLength_def memmove_def xyx_check
      del: checkAttributeUniqueness.simps)

text \<open>
  Claim C3 fails on the code. With \<^verbatim>\<open>checkAttributeUniqueness\<close> enabled and sorting disabled,
  the object with the keys \<^verbatim>\<open>x\<close>, \<^verbatim>\<open>y\<close>, \<^verbatim>\<open>x\<close> is sealed by \<^verbatim>\<open>close()\<close> without an error:
  only keys next to each other in the index table are compared. The sealed bytes are
  shown: the table holds the offsets 2, 5, 8 of the keys in this order. And the check
  does not go into the value of the first pair: an object whose first value holds a
  duplicate is accepted.
\<close>

theorem close_misses_duplicate_attribute:
  "(case xyx_builder of
      Inl e \<Rightarrow> False
    | Inr s \<Rightarrow>
        (case close srt (\<lambda>sl. xyx_slice) s of
           Inl e \<Rightarrow> False
         | Inr s' \<Rightarrow> pos s' = 18 \<and> stack s' = [] \<and>
             region (start s') 0 18 =
               [0x07, 0x12, 0x41, 0x78, 0x31, 0x41, 0x79, 0x32, 0x41, 0x78, 0x33,
                0x02, 0x00, 0x05, 0x00, 0x08, 0x00, 0x03])) \<and>
   checkAttributeUniqueness
     (ObjectSlice
        [(StringSlice [0x61],
          ObjectSlice [(StringSlice [0x78], SmallIntSlice 1), (StringSlice [0x78], SmallIntSlice 2)]),
         (StringSlice [0x62], SmallIntSlice 1)]) = Inr ()"
proof -
  from xyx_builder_close obtain s s' where
    f: "xyx_builder = Inr s" "close srt (\<lambda>sl. xyx_slice) s = Inr s'" and
    g: "pos s' = 18" "stack s' = []"
    "region (start s') 0 18 =
       [0x07, 0x12, 0x41, 0x78, 0x31, 0x41, 0x79, 0x32, 0x41, 0x78, 0x33,
        0x02, 0x00, 0x05, 0x00, 0x08, 0x00, 0x03]"
    by blast
  have n: "checkAttributeUniqueness
     (ObjectSlice
        [(StringSlice [0x61],
          ObjectSlice [(StringSlice [0x78], SmallIntSlice 1), (StringSlice [0x78], SmallIntSlice 2)]),
         (StringSlice [0x62], SmallIntSlice 1)]) = Inr ()"
    by (simp add: isObject_def)
  show ?thesis
    by (simp only: f sum.case g n)
qed

section \<open>The representation chosen by close\<close>

lemma close_Inr_D:
  assumes "close srt decode s = Inr s'" and "stack s \<noteq> []"
    and "\<not> (start s (last (stack s)) < 0x05 \<or> start s (last (stack s)) > 0x08)"
  shows "\<exists>s2. (if close_smallTable (last (stack s)) s
               then close_writeSmallTable srt (last (stack s))
                      (if close_smallByteLength (last (stack s)) s
                       then close_compact (last (stack s)) s else s)
               else close_writeLargeTable srt (last (stack s))
                      (if close_smallByteLength (last (stack s)) s
                       then close_compact (last (stack s)) s else s)) = Inr s2 \<and>
          s' = (close_writeByteLength (close_smallByteLength (last (stack s)) s) (last (stack s)) s2)
                 \<lparr>stack := butlast (stack s2)\<rparr>"
  using assms unfolding close_def Let_def
  by (simp split: sum.splits if_splits del: checkAttributeUniqueness.simps)

lemma close_writeSmallTable_D:
  assumes "close_writeSmallTable srt tos s = Inr s2" and "tos + 2 \<le> pos s"
  shows "stack s2 = stack s"
    and "pos s2 = pos s + (if index s ! (length (stack s) - 1) = [] then 0
                           else 2 * length (index s ! (length (stack s) - 1)) + 1)"
    and "start s2 tos = (if start s tos AND 1 = 0 then start s tos - 1 else start s tos)"
  using assms unfolding close_writeSmallTable_def Let_def
  by (auto split: sum.splits if_splits simp: writeSmallTable_below)

lemma close_writeLargeTable_D:
  assumes "close_writeLargeTable srt tos s = Inr s2" and "tos + 2 \<le> pos s"
  shows "stack s2 = stack s"
    and "pos s2 = pos s + 8 * length (index s ! (length (stack s) - 1)) + 8"
    and "start s2 tos = (if start s tos AND 1 = 1 then start s tos + 1 else start s tos)"
  using assms unfolding close_writeLargeTable_def Let_def
  by (auto split: sum.splits if_splits simp: writeLargeTable_below storeLength_below)

lemma length_index_close_compact:
  "length (index (close_compact tos s) ! (length (stack s) - 1)) =
     length (index s ! (length (stack s) - 1))"
proof (cases "length (stack s) - 1 < length (index s)")
  case True
  then show ?thesis by simp
next
  case False
  then show ?thesis by (simp add: list_update_beyond)
qed

lemma index_close_compact_Nil:
  "(index (close_compact tos s) ! (length (stack s) - 1) = []) =
     (index s ! (length (stack s) - 1) = [])"
  using length_index_close_compact [of tos s] by (simp only: length_0_conv [symmetric])

lemma start_close_compact_tos: "start (close_compact tos s) tos = start s tos"
  by (simp add: memmove_def)

lemma small_tag:
  fixes t :: byte
  assumes "t = 0x05 \<or> t = 0x06 \<or> t = 0x07 \<or> t = 0x08"
  shows "(if t AND 1 = 0 then t - 1 else t) = (if t \<ge> 0x07 then 0x07 else 0x05)"
    and "(if t AND 1 = 1 then t + 1 else t) = (if t \<ge> 0x07 then 0x08 else 0x06)"
  using assms by auto

lemma region_storeLength:
  "region (storeLength m a x 8) a 8 = map (\<lambda>j. of_nat (x div 256 ^ j mod 256)) [0..<8]"
  by (rule nth_equalityI) (simp_all add: region_def storeLength_at)


lemma set_String_bytes_short:
  assumes "length bs \<le> 127"
  shows "pos (set_String_bytes bs s) = pos s + 1 + length bs"
    and "stack (set_String_bytes bs s) = stack s"
    and "index (set_String_bytes bs s) = index s"
    and "options (set_String_bytes bs s) = options s"
    and "attrWritten (set_String_bytes bs s) = attrWritten s"
    and "a < pos s \<Longrightarrow> start (set_String_bytes bs s) a = start s a"
    and "start (set_String_bytes bs s) (pos s) = 0x40 + of_nat (length bs)"
  using assms by (simp_all add: set_String_bytes_def Let_def put_def memcpy_below)

lemma storeLength_apply:
  "storeLength m a x k b =
     (if a \<le> b \<and> b < a + k then of_nat (x div 256 ^ (b - a) mod 256) else m b)"
proof (cases "a \<le> b \<and> b < a + k")
  case True
  then have "b = a + (b - a)" "b - a < k"
    by auto
  then show ?thesis
    using storeLength_at [of "b - a" k m a x] True by simp
next
  case False
  then show ?thesis
    by (auto simp: storeLength_below storeLength_above)
qed

lemma two_strings_builder_eq:
  "\<exists>s. two_strings_builder = Inr s \<and> stack s = [0] \<and> start s 0 = 0x05 \<and>
     index s = [[10, 138]] \<and> pos s = 259 \<and>
     (\<exists>s'. close srt (\<lambda>sl. NullSlice) s = Inr s' \<and> start s' 0 = 0x05 \<and> start s' 1 = 0 \<and>
        region (start s') 2 8 = [0x08, 0x01, 0, 0, 0, 0, 0, 0] \<and> pos s' = 264)"
proof -
  let ?b = "JasonBuilder_new (\<lambda>a. 0) JasonOptions_check"
  define s1 where "s1 = addArray ?b"
  have s1: "stack s1 = [0]" "pos s1 = 10" "index s1 = [[]]" "start s1 0 = 0x05"
    by (simp_all add: s1_def addArray_def addCompoundValue_def Let_def put_def JasonBuilder_new_def)
  have a1: "add (Jason CNone Array) ?b = Inr s1"
    by (simp add: add_def JasonBuilder_new_def s1_def)
  define s2 where "s2 = set_String_bytes (replicate 127 0x61) (reportAdd 0 s1)"
  have a2: "add (Jason (CString (replicate 127 0x61)) String) s1 = Inr s2"
    by (simp add: add_def s1 Let_def set_String_def s2_def)
  have s2: "stack s2 = [0]" "pos s2 = 138" "index s2 = [[10]]" "start s2 0 = 0x05"
    by (simp_all add: s2_def set_String_bytes_short s1 reportAdd_def Let_def)
  define s3 where "s3 = set_String_bytes (replicate 120 0x62) (reportAdd 0 s2)"
  have a3: "add (Jason (CString (replicate 120 0x62)) String) s2 = Inr s3"
    by (simp add: add_def s2 Let_def set_String_def s3_def)
  have s3: "stack s3 = [0]" "pos s3 = 259" "index s3 = [[10, 138]]" "start s3 0 = 0x05"
    by (simp_all add: s3_def set_String_bytes_short s2 reportAdd_def Let_def)
  have c: "\<exists>s'. close srt (\<lambda>sl. NullSlice) s3 = Inr s' \<and> start s' 0 = 0x05 \<and> start s' 1 = 0 \<and>
        region (start s') 2 8 = [0x08, 0x01, 0, 0, 0, 0, 0, 0] \<and> pos s' = 264"
    by (simp add: close_def s3 close_smallByteLength_def close_smallTable_def
        close_writeSmallTable_def close_writeByteLength_def Let_def region_def upt_rec
        storeLength_apply)
  show ?thesis
    using c by (simp add: two_strings_builder_def a1 a2 a3 s3)
qed



section \<open>Strings longer than 127 bytes\<close>

lemma appendLength_fields [simp]:
  "pos (appendLength v k s) = pos s + k"
  "stack (appendLength v k s) = stack s"
  "index (appendLength v k s) = index s"
  "options (appendLength v k s) = options s"
  "attrWritten (appendLength v k s) = attrWritten s"
  by (induction v k s rule: appendLength.induct) (simp_all add: put_def)

lemma start_appendLength:
  "start (appendLength v k s) a =
     (if pos s \<le> a \<and> a < pos s + k then of_nat (v div 256 ^ (a - pos s) mod 256) else start s a)"
proof (induction v k s arbitrary: a rule: appendLength.induct)
  case (1 v s)
  show ?case by auto
next
  case (2 v n s)
  note IH = "2.IH" [of a]
  show ?case
  proof (cases "a = pos s")
    case True
    then show ?thesis by (simp add: "2.IH")
  next
    case False
    show ?thesis
    proof (cases "pos s \<le> a")
      case True
      with False have "a - pos s = Suc (a - (pos s + 1))"
        by simp
      then show ?thesis
        using False True by (simp add: IH div_mult2_eq)
    next
      case False
      then show ?thesis by (simp add: IH)
    qed
  qed
qed


lemma memcpy_above: "dst + length bs \<le> a \<Longrightarrow> memcpy m dst bs a = m a"
  by (induction bs arbitrary: m dst) simp_all

lemma memcpy_apply:
  "memcpy m dst bs a = (if dst \<le> a \<and> a < dst + length bs then bs ! (a - dst) else m a)"
proof (cases "dst \<le> a \<and> a < dst + length bs")
  case True
  then have "a = dst + (a - dst)" "a - dst < length bs"
    by auto
  then show ?thesis
    using memcpy_at [of "a - dst" bs m dst] True by simp
next
  case False
  then show ?thesis
    by (auto simp: memcpy_below memcpy_above)
qed



lemma set_String_bytes_long:
  assumes "127 < length bs"
  shows "pos (set_String_bytes bs s) = pos s + 9"
    and "stack (set_String_bytes bs s) = stack s"
    and "index (set_String_bytes bs s) = index s"
    and "options (set_String_bytes bs s) = options s"
    and "attrWritten (set_String_bytes bs s) = attrWritten s"
    and "start (set_String_bytes bs s) a =
      (if a < pos s then start s a
       else if a = pos s then 0x0c
       else if a < pos s + 9 then of_nat (length bs div 256 ^ (a - (pos s + 1)) mod 256)
       else if a < pos s + 9 + length bs then bs ! (a - (pos s + 9))
       else start s a)"
proof -
  define s1 where "s1 = appendLength (length bs) 8 (put 0x0c s)"
  have e: "set_String_bytes bs s = s1\<lparr>start := memcpy (start s1) (pos s1) bs\<rparr>"
    using assms by (simp add: set_String_bytes_def Let_def s1_def)
  have p1: "pos s1 = pos s + 9"
    by (simp add: s1_def)
  show "pos (set_String_bytes bs s) = pos s + 9"
    by (simp add: e p1)
  show "stack (set_String_bytes bs s) = stack s"
    by (simp add: e s1_def put_def)
  show "index (set_String_bytes bs s) = index s"
    by (simp add: e s1_def put_def)
  show "options (set_String_bytes bs s) = options s"
    by (simp add: e s1_def put_def)
  show "attrWritten (set_String_bytes bs s) = attrWritten s"
    by (simp add: e s1_def put_def)
  have m1: "start s1 a =
      (if pos s + 1 \<le> a \<and> a < pos s + 9
       then of_nat (length bs div 256 ^ (a - (pos s + 1)) mod 256)
       else ((start s)(pos s := 0x0c)) a)"
    unfolding s1_def start_appendLength by simp
  have m2: "start (set_String_bytes bs s) a =
      (if pos s + 9 \<le> a \<and> a < pos s + 9 + length bs then bs ! (a - (pos s + 9))
       else start s1 a)"
    by (simp add: e memcpy_apply p1)
  consider (below) "a < pos s" | (tag) "a = pos s" | (len) "pos s < a" "a < pos s + 9"
    | (bytes) "pos s + 9 \<le> a" "a < pos s + 9 + length bs" | (above) "pos s + 9 + length bs \<le> a"
    by linarith
  then show "start (set_String_bytes bs s) a =
      (if a < pos s then start s a
       else if a = pos s then 0x0c
       else if a < pos s + 9 then of_nat (length bs div 256 ^ (a - (pos s + 1)) mod 256)
       else if a < pos s + 9 + length bs then bs ! (a - (pos s + 9))
       else start s a)"
  proof cases
    case below
    then show ?thesis using m2 m1 by simp
  next
    case tag
    then show ?thesis using m2 m1 by simp
  next
    case len
    then show ?thesis using m2 m1 by simp
  next
    case bytes
    then show ?thesis using m2 by simp
  next
    case above
    then show ?thesis using m2 m1 by simp
  qed
qed

lemma region_Suc: "region m a (Suc n) = m a # region m (Suc a) n"
  by (simp add: region_def upt_conv_Cons del: upt_Suc)

lemma region_Cons: "0 < n \<Longrightarrow> region m a n = m a # region m (Suc a) (n - 1)"
  using region_Suc [of m a "n - 1"] by simp

lemma region_append: "region m a (n + k) = region m a n @ region m (a + n) k"
proof -
  have "[a..<a + n + k] = [a..<a + n] @ [a + n..<a + n + k]"
    by (rule upt_add_eq_append) simp
  then show ?thesis
    by (simp add: region_def add.assoc)
qed

lemma region_eq_replicate:
  "(\<And>i. i < n \<Longrightarrow> m (a + i) = x) \<Longrightarrow> region m a n = replicate n x"
  by (rule nth_equalityI) (simp_all add: region_def)

lemma region_nth: "i < n \<Longrightarrow> region m a n ! i = m (a + i)"
  by (simp add: region_def)

lemma start_set_String_bytes_short:
  assumes "length bs \<le> 127"
  shows "start (set_String_bytes bs s) a =
      (if a < pos s then start s a
       else if a = pos s then 0x40 + of_nat (length bs)
       else if a < pos s + 1 + length bs then bs ! (a - (pos s + 1))
       else start s a)"
  using assms by (simp add: set_String_bytes_def Let_def put_def memcpy_apply)

text \<open>
  Of the two accessors only \<^verbatim>\<open>size()\<close> looks at the stack: with an open container it
  throws, and \<^verbatim>\<open>slice()\<close> returns the slice at the start of the buffer in every state.
\<close>

lemma size_builder_open:
  "stack s \<noteq> [] \<Longrightarrow> size_builder s = Inl (JasonBuilderError ''Jason object not sealed.'')"
  by (simp add: size_builder_def)

lemma size_builder_sealed: "stack s = [] \<Longrightarrow> size_builder s = Inr (pos s)"
  by (simp add: size_builder_def)

lemma slice_builder_unchecked: "slice_builder s = Inr (JasonSlice (start s) 0)"
  by (simp add: slice_builder_def)

text \<open>
  Claim C8 fails on the code. On a new builder \<^verbatim>\<open>add\<close> of a string of 128 bytes leaves
  the stack empty and writes a value of 137 bytes: the tag \<open>0x0c\<close>, the length 128 in eight
  bytes and the 128 bytes of the string. \<^verbatim>\<open>size()\<close> then returns 9 and not the byte
  length 137: for a string longer than 127 bytes \<^verbatim>\<open>set\<close> does not move \<^verbatim>\<open>_pos\<close> past the
  bytes it has copied, as it does for a shorter string.
\<close>

theorem size_after_long_string:
  "case add (Jason (CString (replicate 128 0x61)) String) (JasonBuilder_new m opts) of
     Inl e \<Rightarrow> False
   | Inr s \<Rightarrow> stack s = [] \<and> size_builder s = Inr 9 \<and>
       region (start s) 0 137 = [0x0c, 0x80, 0, 0, 0, 0, 0, 0, 0] @ replicate 128 0x61"
proof -
  define b where "b = JasonBuilder_new m opts"
  define s where "s = set_String_bytes (replicate 128 0x61) b"
  have b: "pos b = 0" "stack b = []"
    by (simp_all add: b_def JasonBuilder_new_def)
  have l: "127 < length (replicate 128 (0x61 :: byte))"
    by simp
  note f = set_String_bytes_long [OF l, where s = b, folded s_def]
  have a: "add (Jason (CString (replicate 128 0x61)) String) b = Inr s"
    by (simp add: add_def b set_String_def s_def)
  have st: "stack s = []" and ps: "pos s = 9"
    by (simp_all add: f b)
  have h: "region (start s) 0 9 = [0x0c, 0x80, 0, 0, 0, 0, 0, 0, 0]"
    by (simp add: region_def upt_rec f(6) b)
  have t: "region (start s) (0 + 9) 128 = replicate 128 0x61"
    by (rule region_eq_replicate) (simp add: f(6) b)
  have "region (start s) 0 (9 + 128) = [0x0c, 0x80, 0, 0, 0, 0, 0, 0, 0] @ replicate 128 0x61"
    by (simp only: region_append h t)
  then have r: "region (start s) 0 137 = [0x0c, 0x80, 0, 0, 0, 0, 0, 0, 0] @ replicate 128 0x61"
    by simp
  have z: "size_builder s = Inr 9"
    by (simp add: size_builder_def st ps)
  show ?thesis
    by (simp only: b_def [symmetric] a sum.case st z r simp_thms)
qed

lemma long_key_builder_eq:
  "\<exists>s. long_key_builder = Inr s \<and> stack s = [0] \<and> pos s = 24 \<and> index s = [[10, 14]] \<and>
     options s = JasonOptions_sort \<and>
     region (start s) 0 24 =
       [0x07, 0, 0, 0, 0, 0, 0, 0, 0, 0, 0x42, 0x31, 0x01, 0x31,
        0x0c, 0x80, 0, 0, 0, 0, 0, 0, 0, 0x31]"
proof -
  define b where "b = JasonBuilder_new (\<lambda>a. 0) JasonOptions_sort"
  define s1 where "s1 = addObject b"
  have s1: "stack s1 = [0]" "pos s1 = 10" "index s1 = [[]]" "attrWritten s1 = False"
    "options s1 = JasonOptions_sort" "\<And>a. start s1 a = (if a = 0 then 0x07 else 0)"
    by (simp_all add: s1_def b_def addObject_def addCompoundValue_def Let_def put_def
        JasonBuilder_new_def)
  have a1: "add (Jason CNone Object) b = Inr s1"
    by (simp add: add_def b_def JasonBuilder_new_def s1_def)
  define k1 where "k1 = set_String_bytes [0x31, 0x01] (reportAdd 0 s1)"
  have l1: "length [0x31, 0x01 :: byte] \<le> 127"
    by simp
  note f1 = set_String_bytes_short [OF l1, where s = "reportAdd 0 s1", folded k1_def]
    start_set_String_bytes_short [OF l1, where s = "reportAdd 0 s1", folded k1_def]
  have k1: "stack k1 = [0]" "pos k1 = 13" "index k1 = [[10]]" "attrWritten k1 = False"
    "options k1 = JasonOptions_sort"
    by (simp_all add: f1 s1 reportAdd_def Let_def)
  define v1 where "v1 = put 0x31 k1"
  have v1: "stack v1 = [0]" "pos v1 = 14" "index v1 = [[10]]" "attrWritten v1 = False"
    "options v1 = JasonOptions_sort"
    by (simp_all add: v1_def put_def k1)
  have t1: "start v1 0 = 0x07"
    by (simp add: v1_def put_def k1 f1(8) s1 reportAdd_def Let_def)
  have a2: "add_attrName [0x31, 0x01] (Jason (CInt64 1) SmallInt) s1 = Inr v1"
    by (simp add: add_attrName_def s1 set_String_def set_SmallInt_def k1_def v1_def)
  define k2 where "k2 = set_String_bytes (replicate 128 0x61) (reportAdd 0 v1)"
  have l2: "127 < length (replicate 128 (0x61 :: byte))"
    by simp
  note f2 = set_String_bytes_long [OF l2, where s = "reportAdd 0 v1", folded k2_def]
  have k2: "stack k2 = [0]" "pos k2 = 23" "index k2 = [[10, 14]]" "attrWritten k2 = False"
    "options k2 = JasonOptions_sort"
    by (simp_all add: f2 v1 reportAdd_def Let_def)
  define v2 where "v2 = put 0x31 k2"
  have v2: "stack v2 = [0]" "pos v2 = 24" "index v2 = [[10, 14]]" "options v2 = JasonOptions_sort"
    by (simp_all add: v2_def put_def k2)
  have a3: "add_attrName (replicate 128 0x61) (Jason (CInt64 1) SmallInt) v1 = Inr v2"
    by (simp add: add_attrName_def v1 t1 set_String_def set_SmallInt_def k2_def v2_def)
  have m: "start v2 a =
      (if a = 23 then 0x31
       else if a < 14 then (if a = 13 then 0x31 else if a < 10 then (if a = 0 then 0x07 else 0)
          else if a = 10 then 0x42 else [0x31, 0x01] ! (a - 11))
       else if a = 14 then 0x0c
       else if a < 23 then of_nat (128 div 256 ^ (a - 15) mod 256)
       else if a < 151 then 0x61
       else 0)" for a
    by (simp add: v2_def put_def k2 f2(6) v1 v1_def k1 f1(8) s1 reportAdd_def Let_def)
  have r: "region (start v2) 0 24 =
       [0x07, 0, 0, 0, 0, 0, 0, 0, 0, 0, 0x42, 0x31, 0x01, 0x31,
        0x0c, 0x80, 0, 0, 0, 0, 0, 0, 0, 0x31]"
    by (simp add: region_def upt_rec m)
  have "long_key_builder = Inr v2"
    by (simp add: long_key_builder_def b_def [symmetric] a1 a2 a3)
  with v2 r show ?thesis
    by blast
qed

lemma findAttrName_len_numeral:
  "findAttrName_len m base (numeral k) len =
     findAttrName_len m base (pred_numeral k) (len * 256 + unat (m (base + numeral k)))"
  by (simp add: numeral_eq_Suc)

lemma memcmp_numeral:
  "memcmp m p q (numeral k) =
     (if m p < m q then - 1 else if m q < m p then 1
      else memcmp m (p + 1) (q + 1) (pred_numeral k))"
  by (simp add: numeral_eq_Suc)

lemma sortObjectIndexShort_cmp_0:
  "sortObjectIndexShort_cmp m 0 a b =
     (if m a \<ge> 0x40 \<and> m a \<le> 0xbf \<and> m b \<ge> 0x40 \<and> m b \<le> 0xbf then
        (let n = min (unat (m a) - 0x40) (unat (m b) - 0x40);
             c = memcmp m (a + 1) (b + 1) n
         in c < 0 \<or> (c = 0 \<and> m a < m b))
      else
        (case (findAttrName m a, findAttrName m b) of
           (Inr (pa, lena), Inr (pb, lenb)) \<Rightarrow>
             (let n = min lena lenb;
                  c = memcmp m pa pb n
              in c < 0 \<or> (c = 0 \<and> lena < lenb))
         | _ \<Rightarrow> False))"
  by (simp add: sortObjectIndexShort_cmp_def)

lemma sortObjectIndexShort_0:
  "sortObjectIndexShort srt m 0 offsets =
     (if list_ex (\<lambda>a. isl (findAttrName m a)) offsets
      then Inl (JasonBuilderError ''Unimplemented attribute name type.'')
      else Inr (sort_JasonLength srt (sortObjectIndexShort_cmp m 0) offsets))"
  by (simp add: sortObjectIndexShort_def)

lemma long_key_close:
  assumes srt: "\<And>lt a b. lt b a \<Longrightarrow> \<not> lt a b \<Longrightarrow> sort_JasonLength srt lt [a, b] = [b, a]"
    and s: "stack s = [0]" "pos s = 24" "index s = [[10, 14]]" "options s = JasonOptions_sort"
      "region (start s) 0 24 =
         [0x07, 0, 0, 0, 0, 0, 0, 0, 0, 0, 0x42, 0x31, 0x01, 0x31,
          0x0c, 0x80, 0, 0, 0, 0, 0, 0, 0, 0x31]"
  shows "\<exists>s'. close srt decode s = Inr s' \<and> stack s' = [] \<and> pos s' = 21 \<and>
     index s' = [[6, 2]] \<and>
     region (start s') 0 21 =
       [0x07, 0x15, 0x42, 0x31, 0x01, 0x31, 0x0c, 0x80, 0, 0, 0, 0, 0, 0, 0, 0x31,
        0x06, 0x00, 0x02, 0x00, 0x02]"
proof -
  have m: "start s a =
      [0x07, 0, 0, 0, 0, 0, 0, 0, 0, 0, 0x42, 0x31, 0x01, 0x31,
       0x0c, 0x80, 0, 0, 0, 0, 0, 0, 0, 0x31] ! a" if "a < 24" for a
    using region_nth [of a 24 "start s" 0] that by (simp add: s(5))
  have sbl: "close_smallByteLength 0 s"
    by (simp add: close_smallByteLength_def s)
  have stb: "close_smallTable 0 s"
    by (simp add: close_smallTable_def sbl)
  define c where "c = close_compact 0 s"
  have c: "stack c = [0]" "pos c = 16" "index c = [[2, 6]]" "options c = JasonOptions_sort"
    by (simp_all add: c_def s close_compact_def Let_def)
  have mc: "start c a = (if 2 \<le> a \<and> a < 16 then start s (10 + (a - 2)) else start s a)" for a
    by (simp add: c_def s memmove_def close_compact_def Let_def)
  have r: "region (start c) 0 17 =
      [0x07, 0, 0x42, 0x31, 0x01, 0x31, 0x0c, 0x80, 0, 0, 0, 0, 0, 0, 0, 0x31, 0]"
    by (simp add: region_def upt_rec mc m)
  have p: "start c a =
      [0x07, 0, 0x42, 0x31, 0x01, 0x31, 0x0c, 0x80, 0, 0, 0, 0, 0, 0, 0, 0x31, 0] ! a"
    if "a < 17" for a
    using region_nth [of a 17 "start c" 0] that by (simp add: r)
  have f2: "findAttrName (start c) 2 = Inr (3, 2)"
    by (simp add: findAttrName_def p)
  have f6: "findAttrName (start c) 6 = Inr (15, 128)"
    by (simp add: findAttrName_def p findAttrName_len_numeral)
  have lt62: "sortObjectIndexShort_cmp (start c) 0 6 2"
    by (simp add: sortObjectIndexShort_cmp_0 f2 f6 p memcmp_numeral)
  have lt26: "\<not> sortObjectIndexShort_cmp (start c) 0 2 6"
    by (simp add: sortObjectIndexShort_cmp_0 f2 f6 p memcmp_numeral)
  have so: "sortObjectIndexShort srt (start c) 0 [2, 6] = Inr [6, 2]"
    using srt [of "sortObjectIndexShort_cmp (start c) 0" 6 2, OF lt62 lt26]
    by (simp add: sortObjectIndexShort_0 f2 f6)
  define w where "w = c\<lparr>pos := 21, start := (writeSmallTable (start c) 16 [6, 2])(20 := 2),
      index := [[6, 2]]\<rparr>"
  have w: "close_writeSmallTable srt 0 c = Inr w"
    by (simp add: close_writeSmallTable_def c p so JasonOptions_sort_def w_def Let_def)
  define s' where "s' = (close_writeByteLength True 0 w)\<lparr>stack := []\<rparr>"
  have cl: "close srt decode s = Inr s'"
    by (simp add: close_def s m sbl stb c_def [symmetric] w s'_def Let_def w_def c
        JasonOptions_sort_def close_writeByteLength_def)
  have f: "stack s' = []" "pos s' = 21" "index s' = [[6, 2]]"
    by (simp_all add: s'_def w_def close_writeByteLength_def)
  have ms: "start s' a = (if a = 1 then 0x15 else if a = 20 then 0x02
      else if a = 16 then 0x06 else if a = 17 then 0 else if a = 18 then 0x02
      else if a = 19 then 0 else start c a)" for a
    by (simp add: s'_def w_def close_writeByteLength_def)
  have "region (start s') 0 21 =
       [0x07, 0x15, 0x42, 0x31, 0x01, 0x31, 0x0c, 0x80, 0, 0, 0, 0, 0, 0, 0, 0x31,
        0x06, 0x00, 0x02, 0x00, 0x02]"
    by (simp add: region_def upt_rec ms p)
  with cl f show ?thesis
    by blast
qed

text \<open>
  Claim C2 fails on the code. With \<^verbatim>\<open>sortAttributeNames\<close> enabled, the object with the key
  \<open>0x31, 0x01\<close> and value 1 and then a key of 128 bytes \<^verbatim>\<open>a\<close> and value 1 is sealed with
  the table \<open>6, 2\<close>: the entry of the long key, recorded second, comes first. Since \<^verbatim>\<open>set\<close>
  leaves \<^verbatim>\<open>_pos\<close> at the first byte of a long string, the value \<open>0x31\<close> is written over
  that byte and the table over the next ones; when the table is sorted the long key reads
  \<open>0x31, 0x00, ...\<close> in the buffer, and in the sealed bytes it reads \<open>0x31, 0x06, ...\<close>.
  So the key at table position 1, \<open>0x31, 0x01\<close>, is less than the key at position 0,
  both as the keys were given and as the sealed bytes hold them. The only thing assumed
  of \<^verbatim>\<open>std::sort\<close> is that it puts two elements in order.
\<close>

theorem close_long_key_table_unsorted:
  assumes "\<And>lt a b. lt b a \<Longrightarrow> \<not> lt a b \<Longrightarrow> sort_JasonLength srt lt [a, b] = [b, a]"
  shows "case long_key_builder of
      Inl e \<Rightarrow> False
    | Inr s \<Rightarrow> index s = [[10, 14]] \<and>
        (case close srt decode s of
           Inl e \<Rightarrow> False
         | Inr s' \<Rightarrow>
             region (start s') 0 21 =
               [0x07, 0x15, 0x42, 0x31, 0x01, 0x31, 0x0c, 0x80, 0, 0, 0, 0, 0, 0, 0, 0x31,
                0x06, 0x00, 0x02, 0x00, 0x02] \<and>
             findAttrName (start s') 6 = Inr (15, 128) \<and>
             findAttrName (start s') 2 = Inr (3, 2) \<and>
             region (start s') 3 2 < region (start s') 15 128)"
proof -
  from long_key_builder_eq obtain s where
    b: "long_key_builder = Inr s" and
    s: "stack s = [0]" "pos s = 24" "index s = [[10, 14]]" "options s = JasonOptions_sort"
      "region (start s) 0 24 =
         [0x07, 0, 0, 0, 0, 0, 0, 0, 0, 0, 0x42, 0x31, 0x01, 0x31,
          0x0c, 0x80, 0, 0, 0, 0, 0, 0, 0, 0x31]"
    by blast
  from long_key_close [OF assms s, of decode] obtain s' where
    c: "close srt decode s = Inr s'" and
    r: "region (start s') 0 21 =
       [0x07, 0x15, 0x42, 0x31, 0x01, 0x31, 0x0c, 0x80, 0, 0, 0, 0, 0, 0, 0, 0x31,
        0x06, 0x00, 0x02, 0x00, 0x02]"
    by blast
  have p: "start s' a =
      [0x07, 0x15, 0x42, 0x31, 0x01, 0x31, 0x0c, 0x80, 0, 0, 0, 0, 0, 0, 0, 0x31,
       0x06, 0x00, 0x02, 0x00, 0x02] ! a" if "a < 21" for a
    using region_nth [of a 21 "start s'" 0] that by (simp add: r)
  have f6: "findAttrName (start s') 6 = Inr (15, 128)"
    by (simp add: findAttrName_def p findAttrName_len_numeral)
  have f2: "findAttrName (start s') 2 = Inr (3, 2)"
    by (simp add: findAttrName_def p)
  have k1: "region (start s') 3 2 = [0x31, 0x01]"
    by (simp add: region_def upt_rec p)
  have k0: "region (start s') 15 128 = 0x31 # 0x06 # region (start s') 17 126"
    by (simp add: region_Cons p)
  have lt: "region (start s') 3 2 < region (start s') 15 128"
    unfolding k1 k0 by simp
  show ?thesis
    by (simp only: b sum.case s(3) c r f6 f2 lt simp_thms)
qed

theorem close_long_key_table_unsorted_witness:
  "case long_key_builder of
      Inl e \<Rightarrow> False
    | Inr s \<Rightarrow> index s = [[10, 14]] \<and>
        (case close by_insertion (\<lambda>sl. NullSlice) s of
           Inl e \<Rightarrow> False
         | Inr s' \<Rightarrow>
             region (start s') 0 21 =
               [0x07, 0x15, 0x42, 0x31, 0x01, 0x31, 0x0c, 0x80, 0, 0, 0, 0, 0, 0, 0, 0x31,
                0x06, 0x00, 0x02, 0x00, 0x02] \<and>
             findAttrName (start s') 6 = Inr (15, 128) \<and>
             findAttrName (start s') 2 = Inr (3, 2) \<and>
             region (start s') 3 2 < region (start s') 15 128)"
proof -
  have "sort_JasonLength by_insertion lt [a, b] = [b, a]" if "lt b a" "\<not> lt a b"
    for lt :: "nat \<Rightarrow> nat \<Rightarrow> bool" and a b
    using that by (simp add: by_insertion_def insertion_sort_def)
  then show ?thesis
    by (rule close_long_key_table_unsorted)
qed

end
